theory Spec2Isabelle
  imports Main "HOL-Library.Word"
begin

unbundle bit_operations_syntax

section \<open>Exceptions\<close>

text \<open>
  The exception classes of \<^verbatim>\<open>core/rcon_client.py\<close>. \<^verbatim>\<open>RCONError\<close> is the base class of the
  four classes that follow it. \<^verbatim>\<open>UnicodeEncodeError\<close> and \<^verbatim>\<open>StructError\<close> are the two
  Python exceptions that \<^verbatim>\<open>str.encode('utf-8')\<close> and \<^verbatim>\<open>struct.pack\<close>/\<^verbatim>\<open>struct.unpack\<close> can
  raise inside \<^verbatim>\<open>RCONPacket.encode\<close>; they are not subclasses of \<^verbatim>\<open>RCONError\<close>.
\<close>

datatype exn =
    RCONError
  | RCONConnectionError
  | RCONAuthenticationError
  | RCONTimeoutError
  | RCONCommandError
  | UnicodeEncodeError
  | StructError

text \<open>What \<^verbatim>\<open>except RCONError\<close> catches: the base class and its subclasses.\<close>

fun is_RCONError :: "exn \<Rightarrow> bool" where
  "is_RCONError UnicodeEncodeError = False"
| "is_RCONError StructError = False"
| "is_RCONError _ = True"

text \<open>The exceptions that the asyncio calls of the client raise and the client catches.\<close>

datatype io_exn = TimeoutError | IncompleteReadError | OSError

section \<open>Bytes, \<^verbatim>\<open>struct\<close> and UTF-8\<close>

type_synonym byte = "8 word"

text \<open>A Python \<^verbatim>\<open>str\<close> is a sequence of code points.\<close>

type_synonym pystr = "nat list"

definition le_bytes :: "32 word \<Rightarrow> byte list" where
  "le_bytes w = [ucast w, ucast (drop_bit 8 w), ucast (drop_bit 16 w), ucast (drop_bit 24 w)]"

definition from_le_bytes :: "byte \<Rightarrow> byte \<Rightarrow> byte \<Rightarrow> byte \<Rightarrow> 32 word" where
  "from_le_bytes b0 b1 b2 b3 =
     ucast b0 OR push_bit 8 (ucast b1) OR push_bit 16 (ucast b2) OR push_bit 24 (ucast b3)"

text \<open>\<^verbatim>\<open>struct.pack('<i', n)\<close>: four bytes, little-endian two's complement; raises
  \<^verbatim>\<open>struct.error\<close> when \<open>n\<close> is not a signed 32-bit value.\<close>

definition pack_i32 :: "int \<Rightarrow> exn + byte list" where
  "pack_i32 n =
     (if - (2 ^ 31) \<le> n \<and> n < 2 ^ 31 then Inr (le_bytes (word_of_int n)) else Inl StructError)"

text \<open>\<^verbatim>\<open>struct.unpack('<i', data)[0]\<close>: raises \<^verbatim>\<open>struct.error\<close> unless \<open>data\<close> has exactly
  four bytes.\<close>

fun unpack_i32 :: "byte list \<Rightarrow> exn + int" where
  "unpack_i32 [b0, b1, b2, b3] = Inr (sint (from_le_bytes b0 b1 b2 b3))"
| "unpack_i32 _ = Inl StructError"

text \<open>\<^verbatim>\<open>struct.pack('<ii', a, b)\<close>.\<close>

definition pack_ii :: "int \<Rightarrow> int \<Rightarrow> exn + byte list" where
  "pack_ii a b =
     (case pack_i32 a of
        Inl e \<Rightarrow> Inl e
      | Inr xs \<Rightarrow> (case pack_i32 b of Inl e \<Rightarrow> Inl e | Inr ys \<Rightarrow> Inr (xs @ ys)))"

text \<open>\<^verbatim>\<open>struct.unpack('<ii', data)\<close>: \<open>data\<close> must have exactly eight bytes.\<close>

definition unpack_ii :: "byte list \<Rightarrow> exn + int \<times> int" where
  "unpack_ii data =
     (if length data \<noteq> 8 then Inl StructError
      else case unpack_i32 (take 4 data) of
        Inl e \<Rightarrow> Inl e
      | Inr a \<Rightarrow> (case unpack_i32 (drop 4 data) of Inl e \<Rightarrow> Inl e | Inr b \<Rightarrow> Inr (a, b)))"

text \<open>
  \<^verbatim>\<open>str.encode('utf-8')\<close>, on byte values as naturals. A surrogate code point
  (\<open>0xD800\<close> to \<open>0xDFFF\<close>) raises \<^verbatim>\<open>UnicodeEncodeError\<close>; a Python \<^verbatim>\<open>str\<close> holds no code point
  above \<open>0x10FFFF\<close>, and the model answers such a number with the same error.
\<close>

definition utf8_encode_cp :: "nat \<Rightarrow> exn + nat list" where
  "utf8_encode_cp cp =
     (if cp < 0x80 then Inr [cp]
      else if cp < 0x800 then Inr [0xC0 + cp div 64, 0x80 + cp mod 64]
      else if cp < 0x10000 then
        (if 0xD800 \<le> cp \<and> cp \<le> 0xDFFF then Inl UnicodeEncodeError
         else Inr [0xE0 + cp div 4096, 0x80 + cp div 64 mod 64, 0x80 + cp mod 64])
      else if cp < 0x110000 then
        Inr [0xF0 + cp div 262144, 0x80 + cp div 4096 mod 64, 0x80 + cp div 64 mod 64,
             0x80 + cp mod 64]
      else Inl UnicodeEncodeError)"

fun utf8_encode_nat :: "pystr \<Rightarrow> exn + nat list" where
  "utf8_encode_nat [] = Inr []"
| "utf8_encode_nat (cp # s) =
     (case utf8_encode_cp cp of
        Inl e \<Rightarrow> Inl e
      | Inr bs \<Rightarrow> (case utf8_encode_nat s of Inl e \<Rightarrow> Inl e | Inr rest \<Rightarrow> Inr (bs @ rest)))"

definition utf8_encode :: "pystr \<Rightarrow> exn + byte list" where
  "utf8_encode s = (case utf8_encode_nat s of Inl e \<Rightarrow> Inl e | Inr bs \<Rightarrow> Inr (map of_nat bs))"

text \<open>
  \<^verbatim>\<open>bytes.decode('utf-8', errors='replace')\<close>, on byte values as naturals, following
  CPython's decoder: an invalid start byte is replaced by U+FFFD alone; an invalid
  continuation byte ends the sequence before it, and the bytes read so far become one
  U+FFFD; a sequence cut off by the end of the data becomes one U+FFFD. The second byte
  after \<open>0xE0\<close>, \<open>0xED\<close>, \<open>0xF0\<close> and \<open>0xF4\<close> is range-checked, which excludes overlong forms,
  surrogates and code points above \<open>0x10FFFF\<close>.
\<close>

definition is_cont :: "nat \<Rightarrow> bool" where
  "is_cont b = (0x80 \<le> b \<and> b < 0xC0)"

fun utf8_decode_nat :: "nat list \<Rightarrow> pystr" where
  "utf8_decode_nat [] = []"
| "utf8_decode_nat (b0 # bs) =
     (if b0 < 0x80 then b0 # utf8_decode_nat bs
      else if b0 < 0xC2 then 0xFFFD # utf8_decode_nat bs
      else if b0 < 0xE0 then
        (case bs of
           [] \<Rightarrow> [0xFFFD]
         | b1 # r1 \<Rightarrow>
             if \<not> is_cont b1 then 0xFFFD # utf8_decode_nat bs
             else ((b0 - 0xC0) * 64 + (b1 - 0x80)) # utf8_decode_nat r1)
      else if b0 < 0xF0 then
        (case bs of
           [] \<Rightarrow> [0xFFFD]
         | b1 # r1 \<Rightarrow>
             if \<not> is_cont b1 \<or> (b0 = 0xE0 \<and> b1 < 0xA0) \<or> (b0 = 0xED \<and> 0xA0 \<le> b1)
             then 0xFFFD # utf8_decode_nat bs
             else (case r1 of
                     [] \<Rightarrow> [0xFFFD]
                   | b2 # r2 \<Rightarrow>
                       if \<not> is_cont b2 then 0xFFFD # utf8_decode_nat r1
                       else ((b0 - 0xE0) * 4096 + (b1 - 0x80) * 64 + (b2 - 0x80))
                              # utf8_decode_nat r2))
      else if b0 < 0xF5 then
        (case bs of
           [] \<Rightarrow> [0xFFFD]
         | b1 # r1 \<Rightarrow>
             if \<not> is_cont b1 \<or> (b0 = 0xF0 \<and> b1 < 0x90) \<or> (b0 = 0xF4 \<and> 0x90 \<le> b1)
             then 0xFFFD # utf8_decode_nat bs
             else (case r1 of
                     [] \<Rightarrow> [0xFFFD]
                   | b2 # r2 \<Rightarrow>
                       if \<not> is_cont b2 then 0xFFFD # utf8_decode_nat r1
                       else (case r2 of
                               [] \<Rightarrow> [0xFFFD]
                             | b3 # r3 \<Rightarrow>
                                 if \<not> is_cont b3 then 0xFFFD # utf8_decode_nat r2
                                 else ((b0 - 0xF0) * 262144 + (b1 - 0x80) * 4096
                                        + (b2 - 0x80) * 64 + (b3 - 0x80))
                                        # utf8_decode_nat r3)))
      else 0xFFFD # utf8_decode_nat bs)"

definition utf8_decode_replace :: "byte list \<Rightarrow> pystr" where
  "utf8_decode_replace bs = utf8_decode_nat (map unat bs)"

section \<open>Packet codec\<close>

text \<open>The dataclass \<^verbatim>\<open>RCONPacket\<close>; its integer fields are Python integers.\<close>

record packet =
  request_id :: int
  packet_type :: int
  payload :: pystr

text \<open>The members of \<^verbatim>\<open>RCONPacketType\<close>.\<close>

definition SERVERDATA_RESPONSE_VALUE :: int where "SERVERDATA_RESPONSE_VALUE = 0"
definition SERVERDATA_EXECCOMMAND :: int where "SERVERDATA_EXECCOMMAND = 2"
definition SERVERDATA_AUTH_RESPONSE :: int where "SERVERDATA_AUTH_RESPONSE = 2"
definition SERVERDATA_AUTH :: int where "SERVERDATA_AUTH = 3"

text \<open>\<^verbatim>\<open>RCONPacket.encode\<close>: the frame with its four-byte size prefix.\<close>

definition encode :: "packet \<Rightarrow> exn + byte list" where
  "encode p =
     (case utf8_encode (payload p) of
        Inl e \<Rightarrow> Inl e
      | Inr utf8 \<Rightarrow>
          let payload_bytes = utf8 @ [0, 0] in
          (case pack_ii (request_id p) (packet_type p) of
             Inl e \<Rightarrow> Inl e
           | Inr header \<Rightarrow>
               let packet_body = header @ payload_bytes;
                   packet_size = int (length packet_body)
               in (case pack_i32 packet_size of
                     Inl e \<Rightarrow> Inl e
                   | Inr size_bytes \<Rightarrow> Inr (size_bytes @ packet_body))))"

text \<open>\<^verbatim>\<open>RCONPacket.decode\<close>: \<^verbatim>\<open>data[:8]\<close> holds the two integers, \<^verbatim>\<open>data[8:-2]\<close> the payload.\<close>

definition decode :: "byte list \<Rightarrow> exn + packet" where
  "decode data =
     (if length data < 10 then Inl RCONError
      else case unpack_ii (take 8 data) of
        Inl e \<Rightarrow> Inl e
      | Inr (rid, ptype) \<Rightarrow>
          Inr \<lparr>request_id = rid, packet_type = ptype,
               payload = utf8_decode_replace (drop 8 (take (length data - 2) data))\<rparr>)"

text \<open>
  The text that \<^verbatim>\<open>str.encode('utf-8')\<close> accepts: code points that are Unicode scalar
  values, and the number of bytes that it produces for them.
\<close>

definition utf8_width :: "nat \<Rightarrow> nat" where
  "utf8_width cp = (if cp < 0x80 then 1 else if cp < 0x800 then 2 else if cp < 0x10000 then 3 else 4)"

definition utf8_size :: "pystr \<Rightarrow> nat" where
  "utf8_size s = sum_list (map utf8_width s)"

definition is_scalar_value :: "nat \<Rightarrow> bool" where
  "is_scalar_value cp = (cp < 0xD800 \<or> (0xDFFF < cp \<and> cp < 0x110000))"

definition valid_text :: "pystr \<Rightarrow> bool" where
  "valid_text s = list_all is_scalar_value s"

section \<open>The transport\<close>

text \<open>
  The client talks to the network through three asyncio calls; their outcomes are the
  input of the model.

  \<^item> The inbound side of a connection (\<^verbatim>\<open>asyncio.StreamReader\<close>) is the sequence of bytes
    that the server sends, with marks \<open>Stall\<close> where the server stays silent for longer
    than the client's timeout, and an \<open>at_end\<close> that says what follows the last byte: the
    server closes the stream, the connection breaks, or the server stays silent.
  \<^item> The outbound side (\<^verbatim>\<open>asyncio.StreamWriter\<close>) is the list of the outcomes of the
    successive \<^verbatim>\<open>write\<close>/\<^verbatim>\<open>drain\<close> pairs; when the list is used up the connection is
    broken.
  \<^item> The network is the list of the outcomes of the successive
    \<^verbatim>\<open>asyncio.open_connection\<close> calls; when the list is used up the server is unreachable.

  Each of the three is finite, so every run of the model ends. A server that never stops
  sending packets is outside the model.
\<close>

datatype item = is_Data: Data (the_byte: byte) | Stall

datatype ending = Eof | Reset | Silent

record stream_reader =
  buffer :: "item list"
  at_end :: ending

text \<open>How a \<^verbatim>\<open>write\<close>/\<^verbatim>\<open>drain\<close> pair ends: it returns, \<^verbatim>\<open>wait_for\<close> raises
  \<^verbatim>\<open>asyncio.TimeoutError\<close>, or the transport raises an \<^verbatim>\<open>OSError\<close>.\<close>

datatype send_outcome = Drained | DrainTimeout | DrainOSError

datatype offer = Refused | Unresponsive | Accepted stream_reader "send_outcome list"

text \<open>
  \<^verbatim>\<open>asyncio.wait_for(reader.readexactly(n), timeout)\<close>: the next \<open>n\<close> bytes when they arrive
  in time. A timeout leaves the bytes that did arrive in the buffer; at the end of the
  stream \<^verbatim>\<open>readexactly\<close> raises \<^verbatim>\<open>IncompleteReadError\<close> and empties the buffer.
\<close>

definition readexactly :: "nat \<Rightarrow> stream_reader \<Rightarrow> (io_exn + byte list) \<times> stream_reader" where
  "readexactly n r =
     (let ready = takeWhile is_Data (buffer r) in
      if n \<le> length ready then
        (Inr (map the_byte (take n ready)), r\<lparr>buffer := drop n (buffer r)\<rparr>)
      else
        (case dropWhile is_Data (buffer r) of
           Stall # later \<Rightarrow> (Inl TimeoutError, r\<lparr>buffer := ready @ later\<rparr>)
         | _ \<Rightarrow>
             (case at_end r of
                Eof \<Rightarrow> (Inl IncompleteReadError, r\<lparr>buffer := []\<rparr>)
              | Reset \<Rightarrow> (Inl OSError, r)
              | Silent \<Rightarrow> (Inl TimeoutError, r))))"

text \<open>\<^verbatim>\<open>writer.write(data)\<close> followed by \<^verbatim>\<open>asyncio.wait_for(writer.drain(), timeout)\<close>.\<close>

definition write_drain :: "send_outcome list \<Rightarrow> send_outcome \<times> send_outcome list" where
  "write_drain w = (case w of [] \<Rightarrow> (DrainOSError, []) | outcome # w' \<Rightarrow> (outcome, w'))"

text \<open>\<^verbatim>\<open>asyncio.wait_for(asyncio.open_connection(host, port), timeout)\<close>.\<close>

fun open_connection ::
  "offer list \<Rightarrow> (io_exn + stream_reader \<times> send_outcome list) \<times> offer list" where
  "open_connection [] = (Inl OSError, [])"
| "open_connection (Refused # n) = (Inl OSError, n)"
| "open_connection (Unresponsive # n) = (Inl TimeoutError, n)"
| "open_connection (Accepted r w # n) = (Inr (r, w), n)"

section \<open>The client\<close>

text \<open>
  What the client does to the outside, in order: \<open>Opened\<close> for each call of
  \<^verbatim>\<open>open_connection\<close>, \<open>Closed\<close> for each \<^verbatim>\<open>writer.close()\<close>, \<open>Slept\<close> for each
  \<^verbatim>\<open>asyncio.sleep(reconnect_delay)\<close>, \<open>Sent p\<close> for each \<^verbatim>\<open>writer.write\<close> of the encoding of
  \<open>p\<close>, \<open>Received p\<close> for each packet that \<^verbatim>\<open>_receive_packet\<close> returns.
\<close>

datatype event = Opened | Closed | Slept | Sent packet | Received packet

text \<open>
  The fields of \<^verbatim>\<open>RCONClient\<close> that its behaviour depends on (\<open>cur_request_id\<close> is
  \<^verbatim>\<open>_request_id\<close>; \<^verbatim>\<open>host\<close>, \<^verbatim>\<open>port\<close>, \<^verbatim>\<open>timeout\<close> and \<^verbatim>\<open>reconnect_delay\<close> only reach the
  asyncio calls and the log), the network \<open>net\<close> that the client runs against, and the
  \<open>trace\<close> of what it has done. The two locks are left out: every operation of the model
  runs from start to end on its own, as it does under \<^verbatim>\<open>self._lock\<close>.
\<close>

record client =
  password :: pystr
  auto_reconnect :: bool
  max_reconnect_attempts :: int
  reader :: "stream_reader option"
  writer :: "send_outcome list option"
  cur_request_id :: int
  connected :: bool
  authenticated :: bool
  net :: "offer list"
  trace :: "event list"

text \<open>\<^verbatim>\<open>RCONClient.__init__\<close>, with the default values of its optional parameters.\<close>

definition init_client :: "pystr \<Rightarrow> offer list \<Rightarrow> client" where
  "init_client pw n =
     \<lparr>password = pw, auto_reconnect = True, max_reconnect_attempts = 3, reader = None,
      writer = None, cur_request_id = 0, connected = False, authenticated = False,
      net = n, trace = []\<rparr>"

definition is_connected :: "client \<Rightarrow> bool" where
  "is_connected c = (connected c \<and> authenticated c)"

text \<open>\<^verbatim>\<open>_next_request_id\<close>; Python's \<^verbatim>\<open>%\<close> rounds towards minus infinity, as \<open>mod\<close> does.\<close>

definition next_request_id :: "client \<Rightarrow> int \<times> client" where
  "next_request_id c =
     (let r = (cur_request_id c + 1) mod 2147483647 in (r, c\<lparr>cur_request_id := r\<rparr>))"

definition log_event :: "event \<Rightarrow> client \<Rightarrow> client" where
  "log_event ev c = c\<lparr>trace := trace c @ [ev]\<rparr>"

definition mark_disconnected :: "client \<Rightarrow> client" where
  "mark_disconnected c = c\<lparr>connected := False, authenticated := False\<rparr>"

text \<open>\<^verbatim>\<open>_send_packet\<close>.\<close>

definition send_packet :: "packet \<Rightarrow> client \<Rightarrow> (exn + unit) \<times> client" where
  "send_packet p c =
     (case writer c of
        None \<Rightarrow> (Inl RCONConnectionError, c)
      | Some w \<Rightarrow>
          (case encode p of
             Inl e \<Rightarrow> (Inl e, c)
           | Inr data \<Rightarrow>
               (case write_drain w of
                  (Drained, w') \<Rightarrow> (Inr (), (log_event (Sent p) c)\<lparr>writer := Some w'\<rparr>)
                | (DrainTimeout, w') \<Rightarrow>
                    (Inl RCONTimeoutError, (log_event (Sent p) c)\<lparr>writer := Some w'\<rparr>)
                | (DrainOSError, w') \<Rightarrow>
                    (Inl RCONConnectionError,
                     mark_disconnected ((log_event (Sent p) c)\<lparr>writer := Some w'\<rparr>)))))"

text \<open>The three \<^verbatim>\<open>except\<close> clauses of \<^verbatim>\<open>_receive_packet\<close>.\<close>

fun receive_failed :: "io_exn \<Rightarrow> client \<Rightarrow> (exn + packet) \<times> client" where
  "receive_failed TimeoutError c = (Inl RCONTimeoutError, c)"
| "receive_failed IncompleteReadError c = (Inl RCONConnectionError, mark_disconnected c)"
| "receive_failed OSError c = (Inl RCONConnectionError, mark_disconnected c)"

text \<open>\<^verbatim>\<open>_receive_packet\<close>.\<close>

definition receive_packet :: "client \<Rightarrow> (exn + packet) \<times> client" where
  "receive_packet c =
     (case reader c of
        None \<Rightarrow> (Inl RCONConnectionError, c)
      | Some r \<Rightarrow>
          (case readexactly 4 r of
             (Inl x, r1) \<Rightarrow> receive_failed x (c\<lparr>reader := Some r1\<rparr>)
           | (Inr size_data, r1) \<Rightarrow>
               (case unpack_i32 size_data of
                  Inl e \<Rightarrow> (Inl e, c\<lparr>reader := Some r1\<rparr>)
                | Inr packet_size \<Rightarrow>
                    if packet_size < 10 \<or> packet_size > 4096
                    then (Inl RCONError, c\<lparr>reader := Some r1\<rparr>)
                    else
                      (case readexactly (nat packet_size) r1 of
                         (Inl x, r2) \<Rightarrow> receive_failed x (c\<lparr>reader := Some r2\<rparr>)
                       | (Inr packet_data, r2) \<Rightarrow>
                           (case decode packet_data of
                              Inl e \<Rightarrow> (Inl e, c\<lparr>reader := Some r2\<rparr>)
                            | Inr packet \<Rightarrow>
                                (Inr packet,
                                 log_event (Received packet) (c\<lparr>reader := Some r2\<rparr>)))))))"

text \<open>
  \<^verbatim>\<open>_authenticate\<close>, in three parts: \<open>read_auth_response\<close> is the first
  \<^verbatim>\<open>_receive_packet\<close> and the \<^verbatim>\<open>if\<close> statement that may read a second packet;
  \<open>authenticate_try\<close> is the body of the \<^verbatim>\<open>try\<close> statement; \<open>authenticate\<close> adds the request
  id, the packet and the \<^verbatim>\<open>except (RCONError, asyncio.TimeoutError)\<close> clause, which resets
  both flags and raises again. The exceptions of \<^verbatim>\<open>encode\<close> pass that clause by, and no
  \<^verbatim>\<open>asyncio.TimeoutError\<close> reaches it: \<^verbatim>\<open>_send_packet\<close> and \<^verbatim>\<open>_receive_packet\<close> have turned it
  into \<^verbatim>\<open>RCONTimeoutError\<close>.
\<close>

definition read_auth_response :: "client \<Rightarrow> (exn + packet) \<times> client" where
  "read_auth_response c =
     (case receive_packet c of
        (Inl e, c1) \<Rightarrow> (Inl e, c1)
      | (Inr response, c1) \<Rightarrow>
          if packet_type response = SERVERDATA_RESPONSE_VALUE then receive_packet c1
          else (Inr response, c1))"

definition authenticate_try :: "int \<Rightarrow> packet \<Rightarrow> client \<Rightarrow> (exn + unit) \<times> client" where
  "authenticate_try auth_id packet c =
     (case send_packet packet c of
        (Inl e, c1) \<Rightarrow> (Inl e, c1)
      | (Inr u, c1) \<Rightarrow>
          (case read_auth_response c1 of
             (Inl e, c2) \<Rightarrow> (Inl e, c2)
           | (Inr response, c2) \<Rightarrow>
               if request_id response = - 1
               then (Inl RCONAuthenticationError, c2\<lparr>connected := False\<rparr>)
               else if request_id response \<noteq> auth_id
               then (Inl RCONAuthenticationError, c2\<lparr>connected := False\<rparr>)
               else (Inr (), c2\<lparr>authenticated := True\<rparr>)))"

definition authenticate :: "client \<Rightarrow> (exn + unit) \<times> client" where
  "authenticate c =
     (let (auth_id, c0) = next_request_id c;
          packet = \<lparr>request_id = auth_id, packet_type = SERVERDATA_AUTH,
                    payload = password c0\<rparr>
      in case authenticate_try auth_id packet c0 of
           (Inl e, c1) \<Rightarrow> if is_RCONError e then (Inl e, mark_disconnected c1) else (Inl e, c1)
         | (Inr u, c1) \<Rightarrow> (Inr (), c1))"

text \<open>\<^verbatim>\<open>_connect_internal\<close>; \<^verbatim>\<open>connect\<close> is the same under the lock.\<close>

definition connect_internal :: "client \<Rightarrow> (exn + unit) \<times> client" where
  "connect_internal c =
     (if connected c then (Inr (), c)
      else
        (case open_connection (net c) of
           (Inl x, n) \<Rightarrow> (Inl RCONConnectionError, (log_event Opened c)\<lparr>net := n\<rparr>)
         | (Inr (r, w), n) \<Rightarrow>
             authenticate
               ((log_event Opened c)\<lparr>net := n, reader := Some r, writer := Some w,
                                      connected := True\<rparr>)))"

definition connect :: "client \<Rightarrow> (exn + unit) \<times> client" where
  "connect c = connect_internal c"

text \<open>\<^verbatim>\<open>_disconnect_internal\<close>: whatever \<^verbatim>\<open>close\<close> and \<^verbatim>\<open>wait_closed\<close> raise is caught and
  the \<^verbatim>\<open>finally\<close> clause runs.\<close>

definition disconnect_internal :: "client \<Rightarrow> client" where
  "disconnect_internal c =
     (case writer c of
        None \<Rightarrow> c
      | Some w \<Rightarrow>
          (log_event Closed c)\<lparr>writer := None, reader := None, connected := False,
                               authenticated := False\<rparr>)"

text \<open>\<^verbatim>\<open>disconnect\<close>: \<^verbatim>\<open>_disconnect_internal\<close> under the lock.\<close>

definition disconnect :: "client \<Rightarrow> client" where
  "disconnect c = disconnect_internal c"

text \<open>
  \<^verbatim>\<open>_reconnect\<close>: the body of its \<^verbatim>\<open>for\<close> loop runs for \<^verbatim>\<open>range(1, max_reconnect_attempts + 1)\<close>;
  \<open>reconnect_loop n\<close> is the loop with \<open>n\<close> attempts left. \<^verbatim>\<open>except RCONError\<close> goes on to
  the next attempt.
\<close>

fun reconnect_loop :: "nat \<Rightarrow> client \<Rightarrow> (exn + bool) \<times> client" where
  "reconnect_loop 0 c = (Inr False, c)"
| "reconnect_loop (Suc n) c =
     (case connect_internal (log_event Slept (disconnect_internal c)) of
        (Inr u, c1) \<Rightarrow> (Inr True, c1)
      | (Inl e, c1) \<Rightarrow> if is_RCONError e then reconnect_loop n c1 else (Inl e, c1))"

definition reconnect :: "client \<Rightarrow> (exn + bool) \<times> client" where
  "reconnect c = reconnect_loop (nat (max_reconnect_attempts c)) c"

section \<open>Executing a command\<close>

text \<open>The number of inbound items that the client has not read yet.\<close>

definition inbound_length :: "client \<Rightarrow> nat" where
  "inbound_length c = (case reader c of None \<Rightarrow> 0 | Some r \<Rightarrow> length (buffer r))"

lemma readexactly_ok_length:
  "readexactly n r = (Inr bs, r') \<Longrightarrow> length (buffer r') + n \<le> length (buffer r) \<and> length bs = n"
  apply (auto simp: readexactly_def Let_def split: if_splits list.splits item.splits ending.splits)
  using length_takeWhile_le[of is_Data "buffer r"] apply linarith
  done

lemma receive_failed_Inr [simp]: "receive_failed x c \<noteq> (Inr p, c')"
  by (cases x) auto

lemma receive_packet_consumes:
  assumes "receive_packet c = (Inr p, c')"
  shows "inbound_length c' < inbound_length c"
proof -
  from assms obtain r where r: "reader c = Some r"
    by (auto simp: receive_packet_def split: option.splits)
  from assms r obtain sd r1 where r1: "readexactly 4 r = (Inr sd, r1)"
    by (cases "readexactly 4 r") (auto simp: receive_packet_def split: sum.splits)
  from assms r r1 obtain r2 where r2: "reader c' = Some r2" "length (buffer r2) \<le> length (buffer r1)"
    by (auto simp: receive_packet_def log_event_def split: sum.splits if_splits prod.splits
             dest!: readexactly_ok_length)
  from readexactly_ok_length[OF r1] r r2 show ?thesis
    by (simp add: inbound_length_def)
qed

text \<open>
  The \<^verbatim>\<open>while True\<close> loop of \<^verbatim>\<open>_execute_internal\<close>. A packet with another request id is
  skipped (\<^verbatim>\<open>continue\<close>). After \<^verbatim>\<open>responses.append\<close> every path of the loop body ends in a
  \<^verbatim>\<open>break\<close>: the two \<^verbatim>\<open>at_eof()\<close> tests break, and so does the last statement of the body,
  which is reached whether the 0.1 second sleep ends or its \<^verbatim>\<open>wait_for\<close> times out. Each
  turn of the loop that goes on has read a whole frame, so the loop ends when the inbound
  bytes do.
\<close>

function read_responses :: "int \<Rightarrow> pystr list \<Rightarrow> client \<Rightarrow> (exn + pystr list) \<times> client" where
  "read_responses rid responses c =
     (case receive_packet c of
        (Inl e, c1) \<Rightarrow> (Inl e, c1)
      | (Inr response, c1) \<Rightarrow>
          if request_id response \<noteq> rid then read_responses rid responses c1
          else (Inr (responses @ [payload response]), c1))"
  by pat_completeness auto
termination
  by (relation "measure (\<lambda>(rid, responses, c). inbound_length c)")
     (auto dest: receive_packet_consumes [OF sym])

text \<open>The body of the \<^verbatim>\<open>try\<close> statement of \<^verbatim>\<open>_execute_internal\<close>:
  \<^verbatim>\<open>_send_packet\<close>, the loop, and \<^verbatim>\<open>''.join(responses)\<close>.\<close>

definition send_and_collect :: "packet \<Rightarrow> client \<Rightarrow> (exn + pystr) \<times> client" where
  "send_and_collect packet c =
     (case send_packet packet c of
        (Inl e, c1) \<Rightarrow> (Inl e, c1)
      | (Inr u, c1) \<Rightarrow>
          (case read_responses (request_id packet) [] c1 of
             (Inl e, c2) \<Rightarrow> (Inl e, c2)
           | (Inr responses, c2) \<Rightarrow> (Inr (concat responses), c2)))"

text \<open>The first statement of \<^verbatim>\<open>_execute_internal\<close>: the test of \<^verbatim>\<open>is_connected\<close>.\<close>

definition ensure_connected :: "bool \<Rightarrow> client \<Rightarrow> (exn + unit) \<times> client" where
  "ensure_connected retry c =
     (if \<not> is_connected c then
        (if auto_reconnect c \<and> retry then
           (case reconnect c of
              (Inl e, c1) \<Rightarrow> (Inl e, c1)
            | (Inr ok, c1) \<Rightarrow> if \<not> ok then (Inl RCONConnectionError, c1) else (Inr (), c1))
         else (Inl RCONConnectionError, c))
      else (Inr (), c))"

text \<open>The statements of \<^verbatim>\<open>_execute_internal\<close> between the test of \<^verbatim>\<open>is_connected\<close> and the
  handlers: a new request id, the command packet, and the \<^verbatim>\<open>try\<close> body.\<close>

definition command_attempt :: "pystr \<Rightarrow> client \<Rightarrow> (exn + pystr) \<times> client" where
  "command_attempt command c =
     (case next_request_id c of
        (rid, c1) \<Rightarrow>
          send_and_collect
            \<lparr>request_id = rid, packet_type = SERVERDATA_EXECCOMMAND, payload = command\<rparr> c1)"

text \<open>
  \<^verbatim>\<open>_execute_internal\<close>. The handler of \<^verbatim>\<open>RCONConnectionError\<close> resets the two flags before
  it looks at \<^verbatim>\<open>auto_reconnect\<close> and \<^verbatim>\<open>retry\<close>; the handler of \<^verbatim>\<open>RCONTimeoutError\<close> resets
  them only under that test. Both end in a bare \<^verbatim>\<open>raise\<close> of the exception they caught.
\<close>

function execute_internal :: "pystr \<Rightarrow> bool \<Rightarrow> client \<Rightarrow> (exn + pystr) \<times> client" where
  "execute_internal command retry c =
     (case ensure_connected retry c of
        (Inl e, c1) \<Rightarrow> (Inl e, c1)
      | (Inr u, c1) \<Rightarrow>
          (case command_attempt command c1 of
             (Inr result, c3) \<Rightarrow> (Inr result, c3)
           | (Inl e, c3) \<Rightarrow>
               if e = RCONConnectionError then
                 (if auto_reconnect c3 \<and> retry then
                    (case reconnect (mark_disconnected c3) of
                       (Inl e', c4) \<Rightarrow> (Inl e', c4)
                     | (Inr ok, c4) \<Rightarrow>
                         if ok then execute_internal command False c4 else (Inl e, c4))
                  else (Inl e, mark_disconnected c3))
               else if e = RCONTimeoutError then
                 (if auto_reconnect c3 \<and> retry then
                    (case reconnect (mark_disconnected c3) of
                       (Inl e', c4) \<Rightarrow> (Inl e', c4)
                     | (Inr ok, c4) \<Rightarrow>
                         if ok then execute_internal command False c4 else (Inl e, c4))
                  else (Inl e, c3))
               else (Inl e, c3)))"
  by pat_completeness auto
termination
  by (relation "measure (\<lambda>(command, retry, c). if retry then 1 else 0)") auto

text \<open>\<^verbatim>\<open>execute\<close>: \<^verbatim>\<open>_execute_internal(command)\<close> under the lock, with \<^verbatim>\<open>retry\<close> at its default.\<close>

definition execute :: "pystr \<Rightarrow> client \<Rightarrow> (exn + pystr) \<times> client" where
  "execute command c = execute_internal command True c"

section \<open>Observations on a run\<close>

text \<open>
  The number of times the trace shows a command packet (type \<^verbatim>\<open>SERVERDATA_EXECCOMMAND\<close>)
  with the given command text being written, the number of calls of \<^verbatim>\<open>open_connection\<close>,
  and the configuration that no operation changes.
\<close>

fun is_command_send :: "pystr \<Rightarrow> event \<Rightarrow> bool" where
  "is_command_send cmd (Sent p) = (packet_type p = SERVERDATA_EXECCOMMAND \<and> payload p = cmd)"
| "is_command_send cmd _ = False"

definition command_sends :: "pystr \<Rightarrow> client \<Rightarrow> nat" where
  "command_sends cmd c = length (filter (is_command_send cmd) (trace c))"

definition opens :: "client \<Rightarrow> nat" where
  "opens c = length (filter (\<lambda>ev. ev = Opened) (trace c))"

definition same_config :: "client \<Rightarrow> client \<Rightarrow> bool" where
  "same_config c c' =
     (password c' = password c \<and> auto_reconnect c' = auto_reconnect c
      \<and> max_reconnect_attempts c' = max_reconnect_attempts c)"

text \<open>The connected flag is set only while the client holds a writer: true of a new client
  and kept by every operation.\<close>

definition writer_while_connected :: "client \<Rightarrow> bool" where
  "writer_while_connected c = (connected c \<longrightarrow> writer c \<noteq> None)"

section \<open>Servers and clients of the concrete runs\<close>

text \<open>The items of one frame as a server sends it, and the command \<^verbatim>\<open>list\<close>.\<close>

definition server_frame :: "int \<Rightarrow> int \<Rightarrow> pystr \<Rightarrow> item list" where
  "server_frame rid ptype text =
     (case encode \<lparr>request_id = rid, packet_type = ptype, payload = text\<rparr> of
        Inl e \<Rightarrow> []
      | Inr frame \<Rightarrow> map Data frame)"

definition cmd_list :: pystr where
  "cmd_list = [0x6C, 0x69, 0x73, 0x74]"

text \<open>A client in the state that a successful \<^verbatim>\<open>connect\<close> leaves, on a connection with the
  given inbound items and outcomes of its sends; the request id 1 went to the handshake.\<close>

definition ready_client :: "item list \<Rightarrow> send_outcome list \<Rightarrow> client" where
  "ready_client inbound sends =
     (init_client [0x70] [])\<lparr>reader := Some \<lparr>buffer = inbound, at_end = Silent\<rparr>,
        writer := Some sends, cur_request_id := 1, connected := True, authenticated := True\<rparr>"

text \<open>A new client with the password \<^verbatim>\<open>pw\<close>. The first connection accepts the password and
  is closed by the server before it answers the command; the second accepts the password
  and answers the command with \<^verbatim>\<open>hi\<close>.\<close>

definition dropping_then_answering :: client where
  "dropping_then_answering =
     init_client [0x70, 0x77]
       [Accepted \<lparr>buffer = server_frame 1 2 [], at_end = Eof\<rparr> [Drained, Drained],
        Accepted \<lparr>buffer = server_frame 3 2 [] @ server_frame 4 0 [0x68, 0x69], at_end = Silent\<rparr>
          [Drained, Drained]]"

text \<open>A new client against a server that answers the password with request id -1, on two
  connections; after them it is unreachable.\<close>

definition rejecting_twice :: client where
  "rejecting_twice =
     init_client [0x70, 0x77]
       [Accepted \<lparr>buffer = server_frame (- 1) 2 [], at_end = Silent\<rparr> [Drained],
        Accepted \<lparr>buffer = server_frame (- 1) 2 [], at_end = Silent\<rparr> [Drained]]"

text \<open>A new client against a server that sends an empty response packet and then
  answers the password with request id -1; a second connection would accept it.\<close>

definition rejecting_after_empty :: client where
  "rejecting_after_empty =
     init_client [0x70, 0x77]
       [Accepted \<lparr>buffer = server_frame 1 0 [] @ server_frame (- 1) 2 [], at_end = Silent\<rparr>
          [Drained],
        Accepted \<lparr>buffer = server_frame 2 2 [], at_end = Silent\<rparr> [Drained]]"

text \<open>A connected client without automatic reconnection whose server stays silent past the
  timeout and then answers request 2 with \<^verbatim>\<open>hi\<close> and request 3 with \<^verbatim>\<open>ok\<close>.\<close>

definition slow_server_no_reconnect :: client where
  "slow_server_no_reconnect =
     (ready_client (Stall # server_frame 2 0 [0x68, 0x69] @ server_frame 3 0 [0x6F, 0x6B])
        [Drained, Drained])\<lparr>auto_reconnect := False\<rparr>"

text \<open>A new client against a server that accepts the connection and never answers.\<close>

definition silent_server :: client where
  "silent_server = init_client [0x70, 0x77] [Accepted \<lparr>buffer = [], at_end = Silent\<rparr> [Drained]]"

text \<open>A connected client with automatic reconnection whose server never answers on the
  present connection; a new connection accepts the password and answers request 4.\<close>

definition late_then_answering :: client where
  "late_then_answering =
     (ready_client [] [Drained])
       \<lparr>net := [Accepted \<lparr>buffer = server_frame 3 2 [] @ server_frame 4 0 [0x68, 0x69],
                           at_end = Silent\<rparr> [Drained, Drained]]\<rparr>"

text \<open>A connected client whose server announces a frame of 5000 bytes.\<close>

definition oversized_answer :: client where
  "oversized_answer = ready_client (map Data [0x88, 0x13, 0, 0]) [Drained]"

text \<open>A new client against a server that answers the password with a response-value packet
  that echoes the request id and carries the text \<^verbatim>\<open>x\<close>, then with request id -1.\<close>

definition nonempty_leading_packet :: client where
  "nonempty_leading_packet =
     init_client [0x70, 0x77]
       [Accepted \<lparr>buffer = server_frame 1 0 [0x78] @ server_frame (- 1) 2 [], at_end = Silent\<rparr>
          [Drained]]"

text \<open>A connected client whose server sends a packet for request 7, then two packets for
  request 2.\<close>

definition answering_after_stray :: client where
  "answering_after_stray =
     ready_client
       (server_frame 7 0 [0x6E, 0x6F] @ server_frame 2 0 [0x68, 0x69] @ server_frame 2 0 [0x7A])
       [Drained]"

text \<open>A new client against a server that answers the password with a response-value packet
  that has request id -1 and carries the text \<^verbatim>\<open>x\<close>, then with a packet that echoes the
  request id.\<close>

definition rejection_in_leading_packet :: client where
  "rejection_in_leading_packet =
     init_client [0x70, 0x77]
       [Accepted \<lparr>buffer = server_frame (- 1) 0 [0x78] @ server_frame 1 2 [], at_end = Silent\<rparr>
          [Drained]]"

text \<open>A new client against a server that answers the password with a packet of type 2 that
  echoes the request id and carries the text \<^verbatim>\<open>x\<close>.\<close>

definition answer_with_text :: client where
  "answer_with_text =
     init_client [0x70, 0x77]
       [Accepted \<lparr>buffer = server_frame 1 2 [0x78], at_end = Silent\<rparr> [Drained]]"

text \<open>A new client against a server that sends two empty response-value packets that echo
  the request id, then a packet with request id -1.\<close>

definition two_leading_packets :: client where
  "two_leading_packets =
     init_client [0x70, 0x77]
       [Accepted \<lparr>buffer = server_frame 1 0 [] @ server_frame 1 0 [] @ server_frame (- 1) 2 [],
                  at_end = Silent\<rparr> [Drained]]"

text \<open>A new client against a server that sends one empty response-value packet and then
  stays silent.\<close>

definition silent_after_leading_packet :: client where
  "silent_after_leading_packet =
     init_client [0x70, 0x77]
       [Accepted \<lparr>buffer = server_frame 1 0 [], at_end = Silent\<rparr> [Drained]]"

section \<open>Properties of the codec\<close>

subsection \<open>Four-byte integers\<close>

lemma from_le_le: "(case le_bytes w of [a,b,c,d] \<Rightarrow> from_le_bytes a b c d) = w"
  unfolding le_bytes_def from_le_bytes_def
  apply simp
  apply (rule bit_word_eqI)
  apply (auto simp: bit_simps)
  subgoal for n by (cases "24 \<le> n") auto
  done
lemma le_bytes_minus_one: "le_bytes (- 1) = [255, 255, 255, 255]"
  by code_simp

lemma sint_word_of_int_i32: "- (2 ^ 31) \<le> n \<Longrightarrow> n < 2 ^ 31 \<Longrightarrow> sint (word_of_int n :: 32 word) = n"
  by (simp add: sint_sbintrunc' signed_take_bit_int_eq_self)
lemma unpack_pack: "pack_i32 n = Inr bs \<Longrightarrow> unpack_i32 bs = Inr n"
  using from_le_le[of "word_of_int n"]
  by (auto simp: pack_i32_def le_bytes_def sint_word_of_int_i32 split: if_splits)
lemma pack_i32_length: "pack_i32 n = Inr bs \<Longrightarrow> length bs = 4"
  by (auto simp: pack_i32_def le_bytes_def split: if_splits)
subsection \<open>UTF-8\<close>

lemma horner3: "(x * 64 + y) * 64 + z = x * 4096 + y * 64 + (z::nat)"
  by simp
lemma horner4: "(x * 64 + y) * 4096 + z = x * 262144 + y * 4096 + (z::nat)"
  by simp
lemma split3: "(n::nat) div 4096 * 4096 + n div 64 mod 64 * 64 + n mod 64 = n"
proof -
  define q where "q = n div 64"
  have a: "n div 4096 = q div 64" by (simp add: q_def div_mult2_eq)
  have "n = q * 64 + n mod 64" by (simp add: q_def)
  also have "q * 64 = (q div 64 * 64 + q mod 64) * 64" by simp
  finally have "n = q div 64 * 4096 + q mod 64 * 64 + n mod 64"
    by (simp only: horner3)
  then show ?thesis unfolding a q_def by simp
qed
lemma split4: "(n::nat) div 262144 * 262144 + n div 4096 mod 64 * 4096 + n div 64 mod 64 * 64 + n mod 64 = n"
proof -
  define q where "q = n div 4096"
  define z where "z = n div 64 mod 64 * 64 + n mod 64"
  have a: "n div 262144 = q div 64" by (simp add: q_def div_mult2_eq)
  have "n = q * 4096 + z" using split3[of n] by (simp add: q_def z_def)
  also have "q * 4096 = (q div 64 * 64 + q mod 64) * 4096" by simp
  finally have "n = q div 64 * 262144 + q mod 64 * 4096 + z"
    by (simp only: horner4)
  then show ?thesis unfolding a q_def z_def by simp
qed
lemma r3: "0x800 \<le> cp \<Longrightarrow> cp < 0x10000 \<Longrightarrow> (cp::nat) div 4096 < 16" by simp
lemma s31: "0x800 \<le> cp \<Longrightarrow> (cp::nat) div 4096 = 0 \<Longrightarrow> 0x20 \<le> cp div 64 mod 64"
proof -
  assume a: "0x800 \<le> cp" "cp div 4096 = 0"
  then have "cp < 4096" by (simp add: div_eq_0_iff)
  then have "cp div 64 < 64" by simp
  then have "cp div 64 mod 64 = cp div 64" by simp
  moreover have "32 \<le> cp div 64" using a(1) by simp
  ultimately show ?thesis by simp
qed
lemma s32: "\<not> (0xD800 \<le> cp \<and> cp \<le> 0xDFFF) \<Longrightarrow> (cp::nat) div 4096 = 13 \<Longrightarrow> cp div 64 mod 64 < 0x20"
proof -
  assume a: "\<not> (0xD800 \<le> cp \<and> cp \<le> 0xDFFF)" "cp div 4096 = 13"
  have "cp div 64 div 64 = 13" using a(2) by (simp add: div_mult2_eq)
  then have "cp div 64 = 13 * 64 + cp div 64 mod 64" using div_mult_mod_eq[of "cp div 64" 64] by simp
  moreover have "cp div 4096 < 14" using a(2) by simp
  then have "cp < 0xE000" by (simp add: div_less_iff_less_mult)
  then have "cp < 0xD800" using a(1) by simp
  then have "cp div 64 < 864" by simp
  ultimately show ?thesis by simp
qed
lemma r4: "cp < 0x110000 \<Longrightarrow> (cp::nat) div 262144 < 5" by simp
lemma s41: "0x10000 \<le> cp \<Longrightarrow> (cp::nat) div 262144 = 0 \<Longrightarrow> 0x10 \<le> cp div 4096 mod 64"
proof -
  assume a: "0x10000 \<le> cp" "cp div 262144 = 0"
  then have "cp < 262144" by (simp add: div_eq_0_iff)
  then have "cp div 4096 < 64" by simp
  then have "cp div 4096 mod 64 = cp div 4096" by simp
  moreover have "16 \<le> cp div 4096" using a(1) by simp
  ultimately show ?thesis by simp
qed
lemma s42: "cp < 0x110000 \<Longrightarrow> (cp::nat) div 262144 = 4 \<Longrightarrow> cp div 4096 mod 64 < 0x10"
proof -
  assume a: "cp < 0x110000" "cp div 262144 = 4"
  have "cp div 4096 div 64 = 4" using a(2) by (simp add: div_mult2_eq)
  then have "cp div 4096 = 4 * 64 + cp div 4096 mod 64" using div_mult_mod_eq[of "cp div 4096" 64] by simp
  moreover have "cp div 4096 < 272" using a(1) by simp
  ultimately show ?thesis by simp
qed

declare utf8_decode_nat.simps(2) [simp del]
lemma dec1: "b0 < 0x80 \<Longrightarrow> utf8_decode_nat (b0 # rest) = b0 # utf8_decode_nat rest"
  by (subst utf8_decode_nat.simps(2)) simp
lemma dec2: "0xC2 \<le> b0 \<Longrightarrow> b0 < 0xE0 \<Longrightarrow> is_cont b1 \<Longrightarrow>
   utf8_decode_nat (b0 # b1 # rest) = ((b0 - 0xC0) * 64 + (b1 - 0x80)) # utf8_decode_nat rest"
  by (subst utf8_decode_nat.simps(2)) simp
lemma dec3: "0xE0 \<le> b0 \<Longrightarrow> b0 < 0xF0 \<Longrightarrow> is_cont b1 \<Longrightarrow> b0 = 0xE0 \<longrightarrow> 0xA0 \<le> b1 \<Longrightarrow>
   b0 = 0xED \<longrightarrow> b1 < 0xA0 \<Longrightarrow> is_cont b2 \<Longrightarrow>
   utf8_decode_nat (b0 # b1 # b2 # rest) = ((b0 - 0xE0) * 4096 + (b1 - 0x80) * 64 + (b2 - 0x80)) # utf8_decode_nat rest"
  by (subst utf8_decode_nat.simps(2)) auto
lemma dec4: "0xF0 \<le> b0 \<Longrightarrow> b0 < 0xF5 \<Longrightarrow> is_cont b1 \<Longrightarrow> b0 = 0xF0 \<longrightarrow> 0x90 \<le> b1 \<Longrightarrow>
   b0 = 0xF4 \<longrightarrow> b1 < 0x90 \<Longrightarrow> is_cont b2 \<Longrightarrow> is_cont b3 \<Longrightarrow>
   utf8_decode_nat (b0 # b1 # b2 # b3 # rest) = ((b0 - 0xF0) * 262144 + (b1 - 0x80) * 4096 + (b2 - 0x80) * 64 + (b3 - 0x80)) # utf8_decode_nat rest"
  by (subst utf8_decode_nat.simps(2)) auto
lemma cont_mod: "is_cont (0x80 + x mod 64)"
  by (simp add: is_cont_def)
lemma enc_dec_cp: 
  assumes e: "utf8_encode_cp cp = Inr bs"
  shows "utf8_decode_nat (bs @ rest) = cp # utf8_decode_nat rest"
proof -
  consider (a) "cp < 0x80" | (b) "0x80 \<le> cp" "cp < 0x800" | (c) "0x800 \<le> cp" "cp < 0x10000" "\<not> (0xD800 \<le> cp \<and> cp \<le> 0xDFFF)"
    | (d) "0x10000 \<le> cp" "cp < 0x110000"
    using e by (auto simp: utf8_encode_cp_def split: if_splits) 
  then show ?thesis
  proof cases
    case a
    with e show ?thesis by (auto simp: utf8_encode_cp_def dec1)
  next
    case b
    then have bs: "bs = [0xC0 + cp div 64, 0x80 + cp mod 64]" using e by (auto simp: utf8_encode_cp_def)
    have r: "0xC2 \<le> 0xC0 + cp div 64" "0xC0 + cp div 64 < 0xE0" using b by simp_all
    show ?thesis unfolding bs using dec2[OF r cont_mod, where rest=rest] by simp
  next
    case c
    then have bs: "bs = [0xE0 + cp div 4096, 0x80 + cp div 64 mod 64, 0x80 + cp mod 64]" using e by (auto simp: utf8_encode_cp_def split: if_splits)
    have r: "0xE0 \<le> 0xE0 + cp div 4096" "0xE0 + cp div 4096 < 0xF0" using r3[OF c(1,2)] by simp_all
    have s1: "0xE0 + cp div 4096 = 0xE0 \<longrightarrow> 0xA0 \<le> 0x80 + cp div 64 mod 64" using s31[OF c(1)] by simp
    have s2: "0xE0 + cp div 4096 = 0xED \<longrightarrow> 0x80 + cp div 64 mod 64 < 0xA0" using s32[OF c(3)] by simp
    show ?thesis unfolding bs using dec3[OF r cont_mod s1 s2 cont_mod, where rest=rest] split3[of cp] by simp
  next
    case d
    then have bs: "bs = [0xF0 + cp div 262144, 0x80 + cp div 4096 mod 64, 0x80 + cp div 64 mod 64, 0x80 + cp mod 64]" using e by (auto simp: utf8_encode_cp_def split: if_splits)
    have r: "0xF0 \<le> 0xF0 + cp div 262144" "0xF0 + cp div 262144 < 0xF5" using r4[OF d(2)] by simp_all
    have s1: "0xF0 + cp div 262144 = 0xF0 \<longrightarrow> 0x90 \<le> 0x80 + cp div 4096 mod 64" using s41[OF d(1)] by simp
    have s2: "0xF0 + cp div 262144 = 0xF4 \<longrightarrow> 0x80 + cp div 4096 mod 64 < 0x90" using s42[OF d(2)] by simp
    show ?thesis unfolding bs using dec4[OF r cont_mod s1 s2 cont_mod cont_mod, where rest=rest] split4[of cp] by simp
  qed
qed
lemma enc_cp_byte: "utf8_encode_cp cp = Inr bs \<Longrightarrow> b \<in> set bs \<Longrightarrow> b < 256"
  using r3[of cp] r4[of cp]
  by (auto simp: utf8_encode_cp_def split: if_splits)
lemma enc_nat_byte: "utf8_encode_nat s = Inr bs \<Longrightarrow> b \<in> set bs \<Longrightarrow> b < 256"
  by (induction s arbitrary: bs) (auto split: sum.splits dest: enc_cp_byte)
lemma enc_dec_nat: "utf8_encode_nat s = Inr bs \<Longrightarrow> utf8_decode_nat bs = s"
proof (induction s arbitrary: bs)
  case Nil then show ?case by simp
next
  case (Cons cp s)
  then obtain b1 b2 where b: "utf8_encode_cp cp = Inr b1" "utf8_encode_nat s = Inr b2" "bs = b1 @ b2"
    by (auto split: sum.splits)
  show ?case using enc_dec_cp[OF b(1), of b2] Cons.IH[OF b(2)] b(3) by simp
qed
lemma map_unat_of_nat: "\<forall>b\<in>set bs. b < 256 \<Longrightarrow> map unat (map of_nat bs :: byte list) = bs"
  by (induction bs) (auto simp: unat_of_nat)
lemma utf8_roundtrip:
  assumes "utf8_encode s = Inr bs"
  shows "utf8_decode_replace bs = s"
proof -
  from assms obtain ns where ns: "utf8_encode_nat s = Inr ns" "bs = map of_nat ns"
    by (auto simp: utf8_encode_def split: sum.splits)
  have "map unat bs = ns" unfolding ns(2)
    by (rule map_unat_of_nat) (auto dest: enc_nat_byte[OF ns(1)])
  then show ?thesis by (simp add: utf8_decode_replace_def enc_dec_nat[OF ns(1)])
qed

lemma utf8_encode_cp_ok:
  "is_scalar_value cp \<Longrightarrow> \<exists>bs. utf8_encode_cp cp = Inr bs \<and> length bs = utf8_width cp"
  by (auto simp: is_scalar_value_def utf8_encode_cp_def utf8_width_def)

lemma utf8_encode_nat_ok:
  "\<forall>cp\<in>set s. is_scalar_value cp \<Longrightarrow> \<exists>bs. utf8_encode_nat s = Inr bs \<and> length bs = utf8_size s"
proof (induction s)
  case Nil then show ?case by (simp add: utf8_size_def)
next
  case (Cons cp s)
  then obtain b1 b2 where "utf8_encode_cp cp = Inr b1" "length b1 = utf8_width cp"
     "utf8_encode_nat s = Inr b2" "length b2 = utf8_size s"
    using utf8_encode_cp_ok[of cp] by auto
  then show ?case by (simp add: utf8_size_def)
qed

lemma utf8_encode_ok:
  "\<forall>cp\<in>set s. is_scalar_value cp \<Longrightarrow> \<exists>bs. utf8_encode s = Inr bs \<and> length bs = utf8_size s"
  using utf8_encode_nat_ok[of s] by (auto simp: utf8_encode_def)

subsection \<open>Frames\<close>

lemma pack_i32_ok: "- (2 ^ 31) \<le> n \<Longrightarrow> n < 2 ^ 31 \<Longrightarrow> \<exists>bs. pack_i32 n = Inr bs"
  by (simp add: pack_i32_def)

lemma decode_encode_body:
  assumes "encode p = Inr frame"
  shows "decode (drop 4 frame) = Inr p"
proof -
  from assms obtain u hdr sz where
    u: "utf8_encode (payload p) = Inr u" and
    hdr: "pack_ii (request_id p) (packet_type p) = Inr hdr" and
    sz: "pack_i32 (int (length (hdr @ u @ [0, 0]))) = Inr sz" and
    frame: "frame = sz @ hdr @ u @ [0, 0]"
    by (auto simp: encode_def Let_def split: sum.splits)
  from hdr obtain h1 h2 where
    h: "pack_i32 (request_id p) = Inr h1" "pack_i32 (packet_type p) = Inr h2" "hdr = h1 @ h2"
    by (auto simp: pack_ii_def split: sum.splits)
  have l: "length sz = 4" "length h1 = 4" "length h2 = 4"
    using sz h by (auto dest: pack_i32_length)
  have body: "drop 4 frame = h1 @ h2 @ u @ [0, 0]" using l frame h(3) by simp
  have hd: "unpack_ii (take 8 (drop 4 frame)) = Inr (request_id p, packet_type p)"
    using l h unpack_pack[OF h(1)] unpack_pack[OF h(2)] by (simp add: body unpack_ii_def)
  have pl: "drop 8 (take (length (drop 4 frame) - 2) (drop 4 frame)) = u"
    using l by (simp add: body)
  show ?thesis
    unfolding decode_def using l hd pl utf8_roundtrip[OF u] by (simp add: body)
qed

lemma encode_ok:
  assumes "- (2 ^ 31) \<le> request_id p" "request_id p < 2 ^ 31"
    "- (2 ^ 31) \<le> packet_type p" "packet_type p < 2 ^ 31"
    "\<forall>cp\<in>set (payload p). is_scalar_value cp" "utf8_size (payload p) + 10 < 2 ^ 31"
  shows "\<exists>frame. encode p = Inr frame \<and> length frame = utf8_size (payload p) + 14"
proof -
  obtain u where u: "utf8_encode (payload p) = Inr u" "length u = utf8_size (payload p)"
    using utf8_encode_ok[OF assms(5)] by auto
  obtain h1 h2 where h: "pack_i32 (request_id p) = Inr h1" "pack_i32 (packet_type p) = Inr h2"
    using pack_i32_ok assms(1-4) by blast
  have l: "length h1 = 4" "length h2 = 4" using h by (auto dest: pack_i32_length)
  define n where "n = int (length ((h1 @ h2) @ u @ [0, 0]))"
  have "n < 2 ^ 31" "0 \<le> n" using l u(2) assms(6) by (simp_all add: n_def)
  then obtain sz where sz: "pack_i32 n = Inr sz"
    using pack_i32_ok[of n] by auto
  have "encode p = Inr (sz @ (h1 @ h2) @ u @ [0, 0])"
    using u h sz unfolding n_def by (simp add: encode_def pack_ii_def Let_def del: length_append append_assoc)
  then show ?thesis using l u(2) pack_i32_length[OF sz] by simp
qed

subsection \<open>Reading a frame\<close>

lemma readexactly_data:
  assumes "buffer r = map Data xs @ rest" "length xs = n"
  shows "readexactly n r = (Inr xs, r\<lparr>buffer := rest\<rparr>)"
proof -
  have "takeWhile is_Data (buffer r) = map Data xs @ takeWhile is_Data rest"
    unfolding assms(1) by (rule takeWhile_append2) auto
  then show ?thesis using assms
    by (simp add: readexactly_def Let_def comp_def)
qed

lemma receive_packet_frame:
  assumes r: "reader c = Some r"
    and buf: "buffer r = map Data (sz @ body) @ rest"
    and sz: "pack_i32 (int (length body)) = Inr sz"
    and len: "10 \<le> length body" "length body \<le> 4096"
    and dec: "decode body = Inr p"
  shows "receive_packet c = (Inr p, log_event (Received p) (c\<lparr>reader := Some (r\<lparr>buffer := rest\<rparr>)\<rparr>))"
proof -
  have l: "length sz = 4" using sz by (rule pack_i32_length)
  have r1: "readexactly 4 r = (Inr sz, r\<lparr>buffer := map Data body @ rest\<rparr>)"
    using buf l by (intro readexactly_data) simp_all
  have r2: "readexactly (length body) (r\<lparr>buffer := map Data body @ rest\<rparr>)
            = (Inr body, r\<lparr>buffer := rest\<rparr>)"
    using readexactly_data[of "r\<lparr>buffer := map Data body @ rest\<rparr>" body rest "length body"] by simp
  show ?thesis
    using len by (simp add: receive_packet_def r r1 r2 unpack_pack[OF sz] dec)
qed

lemma receive_packet_bad_size:
  assumes "reader c = Some r" "readexactly 4 r = (Inr size_data, r1)"
    "unpack_i32 size_data = Inr n" "n < 10 \<or> 4096 < n"
  shows "receive_packet c = (Inl RCONError, c\<lparr>reader := Some r1\<rparr>)"
  using assms by (auto simp: receive_packet_def)

lemma encode_frame_parts:
  assumes "encode p = Inr frame"
  shows "\<exists>sz body. frame = sz @ body \<and> pack_i32 (int (length body)) = Inr sz \<and> 10 \<le> length body"
proof -
  from assms obtain u hdr sz where
    u: "utf8_encode (payload p) = Inr u" and
    hdr: "pack_ii (request_id p) (packet_type p) = Inr hdr" and
    sz: "pack_i32 (int (length (hdr @ u @ [0, 0]))) = Inr sz" and
    frame: "frame = sz @ hdr @ u @ [0, 0]"
    by (auto simp: encode_def Let_def split: sum.splits)
  have "length hdr = 8" using hdr by (auto simp: pack_ii_def split: sum.splits dest!: pack_i32_length)
  then show ?thesis using sz frame by (intro exI[of _ sz] exI[of _ "hdr @ u @ [0,0]"]) simp
qed

lemma utf8_encode_nat_ascii: "\<forall>b\<in>set s. b < 0x80 \<Longrightarrow> utf8_encode_nat s = Inr s"
  by (induction s) (auto simp: utf8_encode_cp_def)


section \<open>The codec: round trip and frame size\<close>

text \<open>
  C3, as the claim states it, fails. \<^verbatim>\<open>RCONPacket.encode\<close> returns the frame with its
  four-byte size prefix, and \<^verbatim>\<open>RCONPacket.decode\<close> takes a frame body without it: applied
  to the bytes that \<open>encode\<close> returns for request id 1, type 2 and the empty payload,
  \<open>decode\<close> reads the size 10 as the request id, the request id 1 as the type, and the
  four bytes of the type as the payload. Read through \<^verbatim>\<open>_receive_packet\<close> instead, which
  strips the prefix, the frame of a payload of 4087 bytes is refused for its size.
\<close>

theorem decode_encode_counterexample:
  "encode \<lparr>request_id = 1, packet_type = 2, payload = []\<rparr>
     = Inr [10, 0, 0, 0, 1, 0, 0, 0, 2, 0, 0, 0, 0, 0]
   \<and> decode [10, 0, 0, 0, 1, 0, 0, 0, 2, 0, 0, 0, 0, 0]
     = Inr \<lparr>request_id = 10, packet_type = 1, payload = [2, 0, 0, 0]\<rparr>
   \<and> encode \<lparr>request_id = 1, packet_type = 2, payload = replicate 4087 0x61\<rparr>
     = Inr ([1, 16, 0, 0, 1, 0, 0, 0, 2, 0, 0, 0] @ replicate 4087 0x61 @ [0, 0])
   \<and> fst (receive_packet
          (ready_client
             (map Data ([1, 16, 0, 0, 1, 0, 0, 0, 2, 0, 0, 0] @ replicate 4087 0x61 @ [0, 0])) []))
     = Inl RCONError"
proof -
  let ?frame = "[1, 16, 0, 0, 1, 0, 0, 0, 2, 0, 0, 0] @ replicate 4087 0x61 @ [0, 0] :: byte list"
  let ?r = "\<lparr>buffer = map Data ?frame, at_end = Silent\<rparr>"
  have a: "encode \<lparr>request_id = 1, packet_type = 2, payload = []\<rparr>
       = Inr [10, 0, 0, 0, 1, 0, 0, 0, 2, 0, 0, 0, 0, 0]"
    by (simp add: encode_def utf8_encode_def pack_ii_def pack_i32_def le_bytes_def)
  have b: "decode [10, 0, 0, 0, 1, 0, 0, 0, 2, 0, 0, 0, 0, 0]
       = Inr \<lparr>request_id = 10, packet_type = 1, payload = [2, 0, 0, 0]\<rparr>"
    by (simp add: decode_def unpack_ii_def from_le_bytes_def utf8_decode_replace_def dec1)
  have c: "encode \<lparr>request_id = 1, packet_type = 2, payload = replicate 4087 0x61\<rparr> = Inr ?frame"
    by (simp add: encode_def utf8_encode_def pack_ii_def pack_i32_def le_bytes_def
        utf8_encode_nat_ascii)
  have "readexactly 4 ?r
        = (Inr [1, 16, 0, 0],
           ?r\<lparr>buffer := map Data ([1, 0, 0, 0, 2, 0, 0, 0] @ replicate 4087 0x61 @ [0, 0])\<rparr>)"
    by (rule readexactly_data) simp_all
  moreover have "unpack_i32 [1, 16, 0, 0] = Inr 4097"
    by (simp add: from_le_bytes_def)
  ultimately have d: "fst (receive_packet (ready_client (map Data ?frame) [])) = Inl RCONError"
    using receive_packet_bad_size [of "ready_client (map Data ?frame) []" ?r "[1, 16, 0, 0]" _ 4097]
    by (simp add: ready_client_def init_client_def)
  from a b c d show ?thesis by blast
qed

text \<open>
  C3, amended. For every packet whose request id and type are signed 32-bit values and
  whose payload is text of Unicode scalar values (with a frame body shorter than \<open>2 ^ 31\<close>
  bytes, the most that the size field holds), \<open>encode\<close> returns a frame, and \<open>decode\<close>
  applied to the frame without its four-byte size prefix returns the packet. That is how
  \<^verbatim>\<open>_receive_packet\<close> calls \<open>decode\<close>, and it returns the packet from a stream that holds the
  frame whenever the payload is at most 4086 bytes of UTF-8.
\<close>

theorem decode_encode_roundtrip:
  assumes "- (2 ^ 31) \<le> request_id p" "request_id p < 2 ^ 31"
    "- (2 ^ 31) \<le> packet_type p" "packet_type p < 2 ^ 31"
    "valid_text (payload p)" "utf8_size (payload p) + 10 < 2 ^ 31"
  shows "\<exists>frame. encode p = Inr frame \<and> decode (drop 4 frame) = Inr p
     \<and> (utf8_size (payload p) \<le> 4086 \<longrightarrow>
          receive_packet (c\<lparr>reader := Some \<lparr>buffer = map Data frame @ rest, at_end = e\<rparr>\<rparr>)
          = (Inr p, log_event (Received p) (c\<lparr>reader := Some \<lparr>buffer = rest, at_end = e\<rparr>\<rparr>)))"
proof -
  obtain frame where f: "encode p = Inr frame" "length frame = utf8_size (payload p) + 14"
    using encode_ok[OF assms(1-4) _ assms(6)] assms(5) by (auto simp: valid_text_def list_all_iff)
  obtain sz body where b: "frame = sz @ body" "pack_i32 (int (length body)) = Inr sz" "10 \<le> length body"
    using encode_frame_parts[OF f(1)] by auto
  have l: "length sz = 4" using b(2) by (rule pack_i32_length)
  have d: "decode body = Inr p" using decode_encode_body[OF f(1)] l b(1) by simp
  have "receive_packet (c\<lparr>reader := Some \<lparr>buffer = map Data frame @ rest, at_end = e\<rparr>\<rparr>)
          = (Inr p, log_event (Received p) (c\<lparr>reader := Some \<lparr>buffer = rest, at_end = e\<rparr>\<rparr>))"
    if "utf8_size (payload p) \<le> 4086"
  proof -
    have "length body \<le> 4096" using that f(2) b(1) l by simp
    from receive_packet_frame[OF _ _ b(2) b(3) this d,
        of "c\<lparr>reader := Some \<lparr>buffer = map Data frame @ rest, at_end = e\<rparr>\<rparr>"
           "\<lparr>buffer = map Data frame @ rest, at_end = e\<rparr>" rest]
    show ?thesis by (simp add: b(1))
  qed
  then show ?thesis using f(1) decode_encode_body[OF f(1)] by blast
qed


theorem decode_encode_roundtrip_witness:
  "valid_text [0x6C, 0xE9, 0x20AC, 0x1F600]
   \<and> utf8_size [0x6C, 0xE9, 0x20AC, 0x1F600] = 10
   \<and> encode \<lparr>request_id = - 1, packet_type = 2, payload = [0x6C, 0xE9, 0x20AC, 0x1F600]\<rparr>
     = Inr [20, 0, 0, 0, 255, 255, 255, 255, 2, 0, 0, 0,
            0x6C, 0xC3, 0xA9, 0xE2, 0x82, 0xAC, 0xF0, 0x9F, 0x98, 0x80, 0, 0]
   \<and> decode [255, 255, 255, 255, 2, 0, 0, 0,
              0x6C, 0xC3, 0xA9, 0xE2, 0x82, 0xAC, 0xF0, 0x9F, 0x98, 0x80, 0, 0]
     = Inr \<lparr>request_id = - 1, packet_type = 2, payload = [0x6C, 0xE9, 0x20AC, 0x1F600]\<rparr>
   \<and> fst (receive_packet
          (ready_client
             (map Data [20, 0, 0, 0, 255, 255, 255, 255, 2, 0, 0, 0,
                        0x6C, 0xC3, 0xA9, 0xE2, 0x82, 0xAC, 0xF0, 0x9F, 0x98, 0x80, 0, 0]) []))
     = Inr \<lparr>request_id = - 1, packet_type = 2, payload = [0x6C, 0xE9, 0x20AC, 0x1F600]\<rparr>"
proof -
  let ?p = "\<lparr>request_id = - 1, packet_type = 2, payload = [0x6C, 0xE9, 0x20AC, 0x1F600]\<rparr>"
  let ?frame = "[20, 0, 0, 0, 255, 255, 255, 255, 2, 0, 0, 0,
                 0x6C, 0xC3, 0xA9, 0xE2, 0x82, 0xAC, 0xF0, 0x9F, 0x98, 0x80, 0, 0] :: byte list"
  have v: "valid_text (payload ?p)"
    by (simp add: valid_text_def is_scalar_value_def)
  have n: "utf8_size (payload ?p) = 10"
    by (simp add: utf8_size_def utf8_width_def)
  have e: "encode ?p = Inr ?frame"
    by (simp add: encode_def utf8_encode_def utf8_encode_cp_def pack_ii_def pack_i32_def
        le_bytes_minus_one) (simp add: le_bytes_def)
  from decode_encode_roundtrip [where p = ?p and c = "ready_client [] []" and rest = "[]" and e = Silent] v n
  obtain frame where f: "encode ?p = Inr frame" "decode (drop 4 frame) = Inr ?p"
    "receive_packet ((ready_client [] [])\<lparr>reader := Some \<lparr>buffer = map Data frame @ [], at_end = Silent\<rparr>\<rparr>)
     = (Inr ?p, log_event (Received ?p)
          ((ready_client [] [])\<lparr>reader := Some \<lparr>buffer = [], at_end = Silent\<rparr>\<rparr>))"
    by auto
  have eq: "frame = ?frame" using e f(1) by simp
  have "(ready_client [] [])\<lparr>reader := Some \<lparr>buffer = map Data ?frame @ [], at_end = Silent\<rparr>\<rparr>
        = ready_client (map Data ?frame) []"
    by (simp add: ready_client_def)
  with f(2,3) show ?thesis using v n e unfolding eq by simp
qed

text \<open>
  C4. \<^verbatim>\<open>RCONPacket.decode\<close> raises \<^verbatim>\<open>RCONError\<close> (the class that the client raises for a
  malformed frame) for every body shorter than 10 bytes, and \<^verbatim>\<open>_receive_packet\<close> raises it
  for every frame whose size prefix is below 10 or above 4096: it has then read the four
  bytes of the prefix and nothing else, and it returns no packet.
\<close>

theorem frame_size_outside_range_rejected:
  "(length data < 10 \<longrightarrow> decode data = Inl RCONError)
   \<and> (reader c = Some r \<and> readexactly 4 r = (Inr size_data, r1)
        \<and> unpack_i32 size_data = Inr n \<and> (n < 10 \<or> 4096 < n)
      \<longrightarrow> receive_packet c = (Inl RCONError, c\<lparr>reader := Some r1\<rparr>))"
  using receive_packet_bad_size [of c r size_data r1 n] by (auto simp: decode_def)

theorem frame_size_outside_range_rejected_witness:
  "length [1, 0, 0, 0, 2, 0, 0, 0, 0 :: byte] < 10
   \<and> decode [1, 0, 0, 0, 2, 0, 0, 0, 0] = Inl RCONError
   \<and> reader (ready_client (map Data [0x88, 0x13, 0, 0, 7, 7]) [])
     = Some \<lparr>buffer = map Data [0x88, 0x13, 0, 0, 7, 7], at_end = Silent\<rparr>
   \<and> readexactly 4 \<lparr>buffer = map Data [0x88, 0x13, 0, 0, 7, 7], at_end = Silent\<rparr>
     = (Inr [0x88, 0x13, 0, 0], \<lparr>buffer = map Data [7, 7], at_end = Silent\<rparr>)
   \<and> unpack_i32 [0x88, 0x13, 0, 0] = Inr 5000
   \<and> receive_packet (ready_client (map Data [0x88, 0x13, 0, 0, 7, 7]) [])
     = (Inl RCONError,
        (ready_client (map Data [0x88, 0x13, 0, 0, 7, 7]) [])
          \<lparr>reader := Some \<lparr>buffer = map Data [7, 7], at_end = Silent\<rparr>\<rparr>)"
proof -
  let ?s = "\<lparr>buffer = map Data [0x88, 0x13, 0, 0, 7, 7], at_end = Silent\<rparr>"
  have r: "reader (ready_client (map Data [0x88, 0x13, 0, 0, 7, 7]) []) = Some ?s"
    by (simp add: ready_client_def)
  have x: "readexactly 4 ?s = (Inr [0x88, 0x13, 0, 0], \<lparr>buffer = map Data [7, 7], at_end = Silent\<rparr>)"
    using readexactly_data [of ?s "[0x88, 0x13, 0, 0]" "map Data [7, 7]" 4] by simp
  have u: "unpack_i32 [0x88, 0x13, 0, 0] = Inr 5000"
    by (simp add: from_le_bytes_def)
  show ?thesis
    using frame_size_outside_range_rejected
      [of "[1, 0, 0, 0, 2, 0, 0, 0, 0]" "ready_client (map Data [0x88, 0x13, 0, 0, 7, 7]) []"
          ?s "[0x88, 0x13, 0, 0]" "\<lparr>buffer = map Data [7, 7], at_end = Silent\<rparr>" 5000]
      r x u
    by simp
qed

section \<open>The request correlator\<close>

text \<open>
  C9. Every request id that \<^verbatim>\<open>_next_request_id\<close> returns is at least 0 and below
  2147483647, the largest signed 32-bit value, so it is never -1; it becomes the new value
  of the counter; and the id of the next call is one more than it, except after
  2147483646, where the next id is 0.
\<close>

theorem next_request_id_range_and_step:
  "0 \<le> fst (next_request_id c) \<and> fst (next_request_id c) < 2147483647
   \<and> fst (next_request_id c) \<noteq> - 1
   \<and> cur_request_id (snd (next_request_id c)) = fst (next_request_id c)
   \<and> fst (next_request_id (snd (next_request_id c)))
       = (if fst (next_request_id c) = 2147483646 then 0 else fst (next_request_id c) + 1)"
proof -
  define r where "r = (cur_request_id c + 1) mod 2147483647"
  have range: "0 \<le> r" "r < 2147483647" by (simp_all add: r_def)
  have first: "next_request_id c = (r, c\<lparr>cur_request_id := r\<rparr>)"
    by (simp add: next_request_id_def r_def Let_def)
  have step: "(r + 1) mod 2147483647 = (if r = 2147483646 then 0 else r + 1)"
    using range by simp
  show ?thesis
    using range step by (simp add: first) (simp add: next_request_id_def Let_def)
qed

section \<open>Properties of the client's operations\<close>

declare execute_internal.simps [simp del] read_responses.simps [simp del]

lemma same_config_refl [simp]: "same_config c c"
  by (simp add: same_config_def)

lemma same_config_trans: "same_config a b \<Longrightarrow> same_config b c \<Longrightarrow> same_config a c"
  by (simp add: same_config_def)


lemma receive_failed_eq:
  "receive_failed x c =
     (if x = TimeoutError then (Inl RCONTimeoutError, c)
      else (Inl RCONConnectionError, mark_disconnected c))"
  by (cases x) simp_all

lemma utf8_encode_nat_error: "utf8_encode_nat s = Inl e \<Longrightarrow> e = UnicodeEncodeError"
  by (induction s) (auto simp: utf8_encode_cp_def split: sum.splits if_splits)

lemma pack_i32_error: "pack_i32 n = Inl e \<Longrightarrow> e = StructError"
  by (auto simp: pack_i32_def split: if_splits)

lemma encode_error: "encode p = Inl e \<Longrightarrow> e = UnicodeEncodeError \<or> e = StructError"
  by (auto simp: encode_def utf8_encode_def pack_ii_def Let_def split: sum.splits
      dest: utf8_encode_nat_error pack_i32_error)

lemma encode_error_not_RCON: "encode p = Inl e \<Longrightarrow> \<not> is_RCONError e"
  by (auto dest: encode_error)

lemma send_packet_props:
  assumes "send_packet p c = (res, c')"
  shows "same_config c c'" "reader c' = reader c" "net c' = net c"
    "cur_request_id c' = cur_request_id c"
    "trace c' = trace c \<or> trace c' = trace c @ [Sent p]"
    "res \<noteq> Inl RCONConnectionError \<Longrightarrow>
       connected c' = connected c \<and> authenticated c' = authenticated c"
    "writer c \<noteq> None \<Longrightarrow> writer c' \<noteq> None"
    "res = Inr () \<or> res = Inl RCONTimeoutError \<Longrightarrow> trace c' = trace c @ [Sent p]"
    "writer c \<noteq> None \<Longrightarrow> res = Inl RCONConnectionError \<Longrightarrow> trace c' = trace c @ [Sent p]"
  using assms
  by (auto simp: send_packet_def same_config_def log_event_def mark_disconnected_def
      split: option.splits sum.splits prod.splits send_outcome.splits dest: encode_error)

lemma receive_packet_props:
  assumes "receive_packet c = (res, c')"
  shows "same_config c c'" "writer c' = writer c" "net c' = net c"
    "cur_request_id c' = cur_request_id c"
    "res \<noteq> Inl RCONConnectionError \<Longrightarrow>
       connected c' = connected c \<and> authenticated c' = authenticated c"
    "\<And>e. res = Inl e \<Longrightarrow> trace c' = trace c"
    "\<And>q. res = Inr q \<Longrightarrow> trace c' = trace c @ [Received q]"
  using assms
  by (auto simp: receive_packet_def receive_failed_eq same_config_def log_event_def
      mark_disconnected_def
      split: option.splits sum.splits prod.splits if_splits)


subsection \<open>What each operation leaves unchanged\<close>

lemma command_sends_log_event:
  "command_sends cmd (log_event ev c) = command_sends cmd c + (if is_command_send cmd ev then 1 else 0)"
  by (simp add: command_sends_def log_event_def)

lemma opens_log_event:
  "opens (log_event ev c) = opens c + (if ev = Opened then 1 else 0)"
  by (simp add: opens_def log_event_def)

lemma command_sends_trace: "trace c' = trace c \<Longrightarrow> command_sends cmd c' = command_sends cmd c"
  by (simp add: command_sends_def)

lemma opens_trace: "trace c' = trace c \<Longrightarrow> opens c' = opens c"
  by (simp add: opens_def)

lemma next_request_id_props:
  assumes "next_request_id c = (rid, c')"
  shows "same_config c c'" "trace c' = trace c" "writer c' = writer c" "reader c' = reader c"
    "net c' = net c" "connected c' = connected c" "authenticated c' = authenticated c"
    "0 \<le> rid" "rid < 2147483647"
  using assms by (auto simp: next_request_id_def Let_def same_config_def)

lemma receive_packet_counts:
  assumes "receive_packet c = (res, c')"
  shows "command_sends cmd c' = command_sends cmd c" "opens c' = opens c"
proof -
  have "trace c' = trace c \<or> (\<exists>q. trace c' = trace c @ [Received q])"
    using receive_packet_props(6,7)[OF assms] by (cases res) auto
  then show "command_sends cmd c' = command_sends cmd c" "opens c' = opens c"
    by (auto simp: command_sends_def opens_def)
qed

lemma send_packet_counts:
  assumes "send_packet p c = (res, c')"
  shows "command_sends cmd c' \<le> command_sends cmd c + 1" "opens c' = opens c"
    "\<not> is_command_send cmd (Sent p) \<Longrightarrow> command_sends cmd c' = command_sends cmd c"
    "is_command_send cmd (Sent p) \<Longrightarrow> trace c' = trace c @ [Sent p] \<Longrightarrow>
       command_sends cmd c' = command_sends cmd c + 1"
  using send_packet_props(5)[OF assms]
  by (auto simp: command_sends_def opens_def)

lemma read_auth_response_props:
  assumes "read_auth_response c = (res, c')"
  shows "same_config c c'" "writer c' = writer c" "net c' = net c"
    "cur_request_id c' = cur_request_id c"
    "res \<noteq> Inl RCONConnectionError \<Longrightarrow>
       connected c' = connected c \<and> authenticated c' = authenticated c"
    "command_sends cmd c' = command_sends cmd c" "opens c' = opens c"
proof -
  obtain r1 c1 where r1: "receive_packet c = (r1, c1)" by (cases "receive_packet c")
  obtain r2 c2 where r2: "receive_packet c1 = (r2, c2)" by (cases "receive_packet c1")
  have eq: "(res, c') = (r1, c1) \<or> ((\<exists>q. r1 = Inr q) \<and> (res, c') = (r2, c2))"
    using assms r1 r2 by (auto simp: read_auth_response_def split: sum.splits if_splits)
  note p1 = receive_packet_props[OF r1] receive_packet_counts[OF r1]
  note p2 = receive_packet_props[OF r2] receive_packet_counts[OF r2]
  show "same_config c c'" using eq p1(1) p2(1) by (auto intro: same_config_trans)
  show "writer c' = writer c" using eq p1(2) p2(2) by auto
  show "net c' = net c" using eq p1(3) p2(3) by auto
  show "cur_request_id c' = cur_request_id c" using eq p1(4) p2(4) by auto
  show "command_sends cmd c' = command_sends cmd c" using eq p1(8) p2(8) by auto
  show "opens c' = opens c" using eq p1(9) p2(9) by auto
  show "connected c' = connected c \<and> authenticated c' = authenticated c"
    if "res \<noteq> Inl RCONConnectionError"
    using eq that p1(5) p2(5) by auto
qed

lemma unpack_i32_error: "unpack_i32 bs = Inl e \<Longrightarrow> e = StructError"
  by (cases bs rule: unpack_i32.cases) auto

lemma decode_error: "decode data = Inl e \<Longrightarrow> e = RCONError \<or> e = StructError"
  by (auto simp: decode_def unpack_ii_def split: if_splits sum.splits dest: unpack_i32_error)

lemma receive_packet_error:
  assumes "receive_packet c = (Inl e, c')"
  shows "e = RCONConnectionError \<or> e = RCONTimeoutError \<or> e = RCONError \<or> e = StructError"
  using assms
  by (auto simp: receive_packet_def receive_failed_eq
      split: option.splits sum.splits prod.splits if_splits dest: unpack_i32_error decode_error)

lemma read_auth_response_error:
  assumes "read_auth_response c = (Inl e, c')"
  shows "e = RCONConnectionError \<or> e = RCONTimeoutError \<or> e = RCONError \<or> e = StructError"
  using assms
  by (auto simp: read_auth_response_def split: sum.splits prod.splits if_splits
      dest: receive_packet_error)

lemma send_packet_error:
  assumes "send_packet p c = (Inl e, c')"
  shows "e = RCONConnectionError \<or> e = RCONTimeoutError \<or> e = UnicodeEncodeError \<or> e = StructError"
  using assms
  by (auto simp: send_packet_def split: option.splits sum.splits prod.splits send_outcome.splits
      dest: encode_error)

lemma authenticate_try_props:
  assumes "authenticate_try aid p c = (res, c')"
  shows "same_config c c'" "net c' = net c" "cur_request_id c' = cur_request_id c"
    "packet_type p = SERVERDATA_AUTH \<Longrightarrow> command_sends cmd c' = command_sends cmd c"
    "opens c' = opens c"
    "res = Inr () \<Longrightarrow> authenticated c' \<and> connected c' = connected c"
    "writer c \<noteq> None \<Longrightarrow> writer c' \<noteq> None"
    "res = Inr () \<Longrightarrow> writer c' \<noteq> None"
proof -
  obtain r1 c1 where s: "send_packet p c = (r1, c1)" by (cases "send_packet p c")
  obtain r2 c2 where r: "read_auth_response c1 = (r2, c2)" by (cases "read_auth_response c1")
  note ps = send_packet_props[OF s] send_packet_counts[OF s]
  note pr = read_auth_response_props[OF r]
  have eq: "(\<exists>e. r1 = Inl e \<and> res = Inl e \<and> c' = c1)
      \<or> (r1 = Inr () \<and> (\<exists>e. r2 = Inl e \<and> res = Inl e \<and> c' = c2))
      \<or> (r1 = Inr () \<and> (\<exists>q. r2 = Inr q) \<and> res = Inl RCONAuthenticationError
           \<and> c' = c2\<lparr>connected := False\<rparr>)
      \<or> (r1 = Inr () \<and> (\<exists>q. r2 = Inr q) \<and> res = Inr () \<and> c' = c2\<lparr>authenticated := True\<rparr>)"
    using assms s r by (auto simp: authenticate_try_def split: sum.splits if_splits)
  show "same_config c c'" using eq ps(1) pr(1) by (auto simp: same_config_def)
  show "net c' = net c" using eq ps(3) pr(3) by auto
  show "cur_request_id c' = cur_request_id c" using eq ps(4) pr(4) by auto
  show "opens c' = opens c" using eq ps(11) pr(7) by (auto simp: opens_def)
  show "command_sends cmd c' = command_sends cmd c" if "packet_type p = SERVERDATA_AUTH"
  proof -
    have "\<not> is_command_send cmd (Sent p)"
      using that by (simp add: SERVERDATA_AUTH_def SERVERDATA_EXECCOMMAND_def)
    from ps(12)[OF this] pr(6) eq show ?thesis by (auto simp: command_sends_def)
  qed
  show "authenticated c' \<and> connected c' = connected c" if "res = Inr ()"
    using eq that ps(6) pr(5) by auto
  show w: "writer c' \<noteq> None" if "writer c \<noteq> None"
    using eq that ps(7) pr(2) by auto
  show "writer c' \<noteq> None" if "res = Inr ()"
  proof -
    have "r1 = Inr ()" using eq that by auto
    then have "writer c \<noteq> None" using s by (auto simp: send_packet_def split: option.splits)
    then show ?thesis by (rule w)
  qed
qed

lemma authenticate_try_error:
  assumes "authenticate_try aid p c = (Inl e, c')"
  shows "e \<noteq> RCONCommandError"
    "is_RCONError e \<or> e = UnicodeEncodeError \<or> e = StructError"
  using assms
  by (auto simp: authenticate_try_def split: sum.splits prod.splits if_splits
      dest: send_packet_error read_auth_response_error)

lemma authenticate_props:
  assumes "authenticate c = (res, c')"
  shows "same_config c c'" "net c' = net c"
    "command_sends cmd c' = command_sends cmd c" "opens c' = opens c"
    "res = Inr () \<Longrightarrow> authenticated c' \<and> connected c' = connected c \<and> writer c' \<noteq> None"
    "\<And>e. res = Inl e \<Longrightarrow> is_RCONError e \<Longrightarrow> \<not> connected c' \<and> \<not> authenticated c'"
    "writer c \<noteq> None \<Longrightarrow> writer c' \<noteq> None"
proof -
  obtain aid c0 where n: "next_request_id c = (aid, c0)" by (cases "next_request_id c")
  let ?p = "\<lparr>request_id = aid, packet_type = SERVERDATA_AUTH, payload = password c0\<rparr>"
  obtain r1 c1 where a: "authenticate_try aid ?p c0 = (r1, c1)"
    by (cases "authenticate_try aid ?p c0")
  note pn = next_request_id_props[OF n]
  note pa = authenticate_try_props[OF a]
  have eq: "res = r1 \<and> (c' = c1 \<or> ((\<exists>e. r1 = Inl e \<and> is_RCONError e) \<and> c' = mark_disconnected c1))"
    "\<And>e. res = Inl e \<Longrightarrow> is_RCONError e \<Longrightarrow> c' = mark_disconnected c1"
    using assms n a by (auto simp: authenticate_def split: sum.splits if_splits)
  show "same_config c c'" using eq(1) pn(1) pa(1) by (auto simp: same_config_def mark_disconnected_def)
  show "net c' = net c" using eq(1) pn(5) pa(2) by (auto simp: mark_disconnected_def)
  show "opens c' = opens c" using eq(1) pn(2) pa(5) by (auto simp: mark_disconnected_def opens_def)
  show "command_sends cmd c' = command_sends cmd c"
    using eq(1) pn(2) pa(4)[of cmd] by (auto simp: mark_disconnected_def command_sends_def)
  show "authenticated c' \<and> connected c' = connected c \<and> writer c' \<noteq> None" if "res = Inr ()"
    using eq(1) that pn(6) pa(6,8) by auto
  show "\<not> connected c' \<and> \<not> authenticated c'" if "res = Inl e" "is_RCONError e" for e
    using eq(2)[OF that] by (simp add: mark_disconnected_def)
  show "writer c' \<noteq> None" if "writer c \<noteq> None"
    using eq(1) that pn(3) pa(7) by (auto simp: mark_disconnected_def)
qed

lemma authenticate_error:
  assumes "authenticate c = (Inl e, c')"
  shows "e \<noteq> RCONCommandError" "is_RCONError e \<or> e = UnicodeEncodeError \<or> e = StructError"
  using assms
  by (auto simp: authenticate_def split: sum.splits prod.splits if_splits
      dest: authenticate_try_error)



lemma connect_internal_shape:
  assumes "connect_internal c = (res, c')"
  shows "(connected c \<and> res = Inr () \<and> c' = c)
    \<or> (\<not> connected c \<and> res = Inl RCONConnectionError \<and> (\<exists>n. c' = (log_event Opened c)\<lparr>net := n\<rparr>))
    \<or> (\<not> connected c \<and> (\<exists>n r w. authenticate ((log_event Opened c)\<lparr>net := n, reader := Some r,
           writer := Some w, connected := True\<rparr>) = (res, c')))"
  using assms
  by (auto simp: connect_internal_def split: if_splits sum.splits prod.splits)

lemma connect_internal_props:
  assumes "connect_internal c = (res, c')"
  shows "same_config c c'"
    and "command_sends cmd c' = command_sends cmd c"
    and "opens c' \<le> opens c + 1"
    and "\<not> connected c \<Longrightarrow> opens c' = opens c + 1"
    and "\<not> connected c \<Longrightarrow> res = Inr () \<Longrightarrow> is_connected c' \<and> writer c' \<noteq> None"
    and "\<not> connected c \<Longrightarrow> res = Inl e \<Longrightarrow> is_RCONError e \<Longrightarrow> \<not> connected c'"
    and "res = Inl RCONTimeoutError \<Longrightarrow> \<not> connected c' \<and> \<not> authenticated c'"
    and "res = Inl RCONAuthenticationError \<Longrightarrow> \<not> connected c' \<and> \<not> authenticated c'"
    and "writer_while_connected c \<Longrightarrow> writer_while_connected c'"
proof -
  have all: "same_config c c' \<and> command_sends cmd c' = command_sends cmd c \<and> opens c' \<le> opens c + 1
      \<and> (\<not> connected c \<longrightarrow> opens c' = opens c + 1)
      \<and> (\<not> connected c \<longrightarrow> res = Inr () \<longrightarrow> is_connected c' \<and> writer c' \<noteq> None)
      \<and> (\<not> connected c \<longrightarrow> res = Inl e \<longrightarrow> is_RCONError e \<longrightarrow> \<not> connected c')
      \<and> (res = Inl RCONTimeoutError \<longrightarrow> \<not> connected c' \<and> \<not> authenticated c')
      \<and> (res = Inl RCONAuthenticationError \<longrightarrow> \<not> connected c' \<and> \<not> authenticated c')
      \<and> (writer_while_connected c \<longrightarrow> writer_while_connected c')"
    using connect_internal_shape[OF assms]
  proof (elim disjE conjE exE)
    assume "connected c" "res = Inr ()" "c' = c"
    then show ?thesis by simp
  next
    fix n assume "\<not> connected c" "res = Inl RCONConnectionError" "c' = (log_event Opened c)\<lparr>net := n\<rparr>"
    then show ?thesis
      by (simp add: same_config_def command_sends_def opens_def log_event_def
          writer_while_connected_def)
  next
    fix n r w
    let ?c1 = "(log_event Opened c)\<lparr>net := n, reader := Some r, writer := Some w, connected := True\<rparr>"
    assume nc: "\<not> connected c" and a: "authenticate ?c1 = (res, c')"
    note pa = authenticate_props[OF a]
    have c1: "same_config c ?c1" "command_sends cmd ?c1 = command_sends cmd c"
      "opens ?c1 = opens c + 1" "connected ?c1" "writer ?c1 \<noteq> None"
      by (simp_all add: same_config_def command_sends_def opens_def log_event_def)
    have e: "is_RCONError RCONTimeoutError" "is_RCONError RCONAuthenticationError" by simp_all
    show ?thesis
      using same_config_trans[OF c1(1) pa(1)] pa(3)[of cmd] pa(4) pa(5) pa(6) pa(7)[OF c1(5)]
        c1(2,3,4) e
      by (auto simp: is_connected_def writer_while_connected_def)
  qed
  from all show "same_config c c'" by blast
  from all show "command_sends cmd c' = command_sends cmd c" by blast
  from all show "opens c' \<le> opens c + 1" by blast
  from all show "\<not> connected c \<Longrightarrow> opens c' = opens c + 1" by blast
  from all show "\<not> connected c \<Longrightarrow> res = Inr () \<Longrightarrow> is_connected c' \<and> writer c' \<noteq> None" by blast
  from all show "\<not> connected c \<Longrightarrow> res = Inl e \<Longrightarrow> is_RCONError e \<Longrightarrow> \<not> connected c'" by blast
  from all show "res = Inl RCONTimeoutError \<Longrightarrow> \<not> connected c' \<and> \<not> authenticated c'" by blast
  from all show "res = Inl RCONAuthenticationError \<Longrightarrow> \<not> connected c' \<and> \<not> authenticated c'" by blast
  from all show "writer_while_connected c \<Longrightarrow> writer_while_connected c'" by blast
qed

lemma connect_internal_error:
  assumes "connect_internal c = (Inl e, c')"
  shows "e \<noteq> RCONCommandError" "is_RCONError e \<or> e = UnicodeEncodeError \<or> e = StructError"
  using connect_internal_shape[OF assms] by (auto dest: authenticate_error)

lemma disconnect_internal_props:
  shows "same_config c (disconnect_internal c)"
    and "net (disconnect_internal c) = net c"
    and "command_sends cmd (disconnect_internal c) = command_sends cmd c"
    and "opens (disconnect_internal c) = opens c"
    and "writer_while_connected c \<Longrightarrow> \<not> connected (disconnect_internal c)"
    and "\<not> connected c \<Longrightarrow> \<not> connected (disconnect_internal c)"
    and "writer_while_connected c \<Longrightarrow> writer_while_connected (disconnect_internal c)"
  by (auto simp: disconnect_internal_def same_config_def command_sends_def opens_def
      log_event_def writer_while_connected_def split: option.splits)

lemma slept_props:
  shows "same_config c (log_event Slept c)"
    and "command_sends cmd (log_event Slept c) = command_sends cmd c"
    and "opens (log_event Slept c) = opens c"
    and "connected (log_event Slept c) = connected c"
    and "writer_while_connected (log_event Slept c) = writer_while_connected c"
  by (auto simp: same_config_def command_sends_def opens_def log_event_def
      writer_while_connected_def)

lemma reconnect_loop_props:
  assumes "reconnect_loop n c = (res, c')"
  shows "same_config c c'"
    and "command_sends cmd c' = command_sends cmd c"
    and "opens c' \<le> opens c + n"
    and "writer_while_connected c \<or> \<not> connected c \<Longrightarrow> res = Inr True \<Longrightarrow> is_connected c' \<and> writer c' \<noteq> None"
    and "\<not> connected c \<Longrightarrow> res = Inr False \<Longrightarrow> \<not> connected c'"
    and "res = Inl e \<Longrightarrow> \<not> is_RCONError e"
    and "writer_while_connected c \<Longrightarrow> writer_while_connected c'"
proof -
  have all: "same_config c c' \<and> command_sends cmd c' = command_sends cmd c \<and> opens c' \<le> opens c + n
    \<and> (writer_while_connected c \<or> \<not> connected c \<longrightarrow> res = Inr True \<longrightarrow> is_connected c' \<and> writer c' \<noteq> None)
    \<and> (\<not> connected c \<longrightarrow> res = Inr False \<longrightarrow> \<not> connected c')
    \<and> (res = Inl e \<longrightarrow> \<not> is_RCONError e)
    \<and> (writer_while_connected c \<longrightarrow> writer_while_connected c')"
    using assms
  proof (induction n arbitrary: c)
    case 0
    then show ?case by auto
  next
    case (Suc n)
    let ?d = "log_event Slept (disconnect_internal c)"
    obtain r1 c1 where ci: "connect_internal ?d = (r1, c1)" by (cases "connect_internal ?d")
    note pc = connect_internal_props[OF ci]
    note pd = disconnect_internal_props[where c = c] slept_props[where c = "disconnect_internal c"]
    have d: "same_config c ?d" "command_sends cmd ?d = command_sends cmd c" "opens ?d = opens c"
      "writer_while_connected c \<or> \<not> connected c \<Longrightarrow> \<not> connected ?d"
      "writer_while_connected c \<Longrightarrow> writer_while_connected ?d"
      using pd by (auto intro: same_config_trans)
    show ?case
    proof (cases r1)
      case (Inr u)
      then have eq: "res = Inr True" "c' = c1" using Suc.prems ci by auto
      show ?thesis unfolding eq
        using same_config_trans[OF d(1) pc(1)] pc(2)[of cmd] pc(3) pc(5) pc(9) d Inr
        by auto
    next
      case (Inl e1)
      show ?thesis
      proof (cases "is_RCONError e1")
        case False
        then have eq: "res = Inl e1" "c' = c1" using Suc.prems ci Inl by auto
        show ?thesis unfolding eq
          using same_config_trans[OF d(1) pc(1)] pc(2)[of cmd] pc(3) pc(9) d False
          by auto
      next
        case True
        then have rec: "reconnect_loop n c1 = (res, c')" using Suc.prems ci Inl by auto
        note ih = Suc.IH[OF rec]
        have nc1: "writer_while_connected c \<or> \<not> connected c \<Longrightarrow> \<not> connected c1"
          using pc(6)[of e1] Inl True d(4) by auto
        show ?thesis
          using ih same_config_trans[OF d(1) pc(1)] pc(2)[of cmd] pc(3) pc(9) d nc1
          by (auto intro: same_config_trans)
      qed
    qed
  qed
  from all show "same_config c c'" by blast
  from all show "command_sends cmd c' = command_sends cmd c" by blast
  from all show "opens c' \<le> opens c + n" by blast
  from all show "writer_while_connected c \<or> \<not> connected c \<Longrightarrow> res = Inr True \<Longrightarrow> is_connected c' \<and> writer c' \<noteq> None" by blast
  from all show "\<not> connected c \<Longrightarrow> res = Inr False \<Longrightarrow> \<not> connected c'" by blast
  from all show "res = Inl e \<Longrightarrow> \<not> is_RCONError e" by blast
  from all show "writer_while_connected c \<Longrightarrow> writer_while_connected c'" by blast
qed




lemma reconnect_props:
  assumes "reconnect c = (res, c')"
  shows "same_config c c'"
    and "command_sends cmd c' = command_sends cmd c"
    and "opens c' \<le> opens c + nat (max_reconnect_attempts c)"
    and "writer_while_connected c \<or> \<not> connected c \<Longrightarrow> res = Inr True \<Longrightarrow> is_connected c' \<and> writer c' \<noteq> None"
    and "\<not> connected c \<Longrightarrow> res = Inr False \<Longrightarrow> \<not> connected c'"
    and "res = Inl e \<Longrightarrow> \<not> is_RCONError e"
    and "writer_while_connected c \<Longrightarrow> writer_while_connected c'"
  using reconnect_loop_props[OF assms[unfolded reconnect_def]] by blast+

lemma ensure_connected_shape:
  assumes "ensure_connected retry c = (res, c')"
  shows "(is_connected c \<and> res = Inr () \<and> c' = c)
    \<or> (\<not> is_connected c \<and> \<not> (auto_reconnect c \<and> retry) \<and> res = Inl RCONConnectionError \<and> c' = c)
    \<or> (\<not> is_connected c \<and> auto_reconnect c \<and> retry \<and>
        ((\<exists>e. reconnect c = (Inl e, c') \<and> res = Inl e)
         \<or> (reconnect c = (Inr False, c') \<and> res = Inl RCONConnectionError)
         \<or> (reconnect c = (Inr True, c') \<and> res = Inr ())))"
  using assms
  by (auto simp: ensure_connected_def split: if_splits sum.splits prod.splits)

lemma ensure_connected_props:
  assumes "ensure_connected retry c = (res, c')"
  shows "same_config c c'"
    and "command_sends cmd c' = command_sends cmd c"
    and "opens c' \<le> opens c + nat (max_reconnect_attempts c)"
    and "writer_while_connected c \<Longrightarrow> res = Inr () \<Longrightarrow> is_connected c' \<and> writer c' \<noteq> None"
    and "res = Inl e \<Longrightarrow> e = RCONConnectionError \<or> \<not> is_RCONError e"
    and "writer_while_connected c \<Longrightarrow> writer_while_connected c'"
    and "\<not> (auto_reconnect c \<and> retry) \<Longrightarrow> c' = c \<and> (res = Inr () \<longrightarrow> is_connected c)"
proof -
  have all: "same_config c c' \<and> command_sends cmd c' = command_sends cmd c
    \<and> opens c' \<le> opens c + nat (max_reconnect_attempts c)
    \<and> (writer_while_connected c \<longrightarrow> res = Inr () \<longrightarrow> is_connected c' \<and> writer c' \<noteq> None)
    \<and> (res = Inl e \<longrightarrow> e = RCONConnectionError \<or> \<not> is_RCONError e)
    \<and> (writer_while_connected c \<longrightarrow> writer_while_connected c')
    \<and> (\<not> (auto_reconnect c \<and> retry) \<longrightarrow> c' = c \<and> (res = Inr () \<longrightarrow> is_connected c))"
    using ensure_connected_shape[OF assms]
  proof (elim disjE conjE exE)
    assume "is_connected c" "res = Inr ()" "c' = c"
    then show ?thesis by (auto simp: is_connected_def writer_while_connected_def)
  next
    assume "\<not> is_connected c" "\<not> (auto_reconnect c \<and> retry)" "res = Inl RCONConnectionError" "c' = c"
    then show ?thesis by auto
  next
    fix e1 assume a: "auto_reconnect c" "retry" and r: "reconnect c = (Inl e1, c')" and eq: "res = Inl e1"
    show ?thesis using reconnect_props[OF r] a eq by auto
  next
    assume a: "auto_reconnect c" "retry" and r: "reconnect c = (Inr False, c')" and eq: "res = Inl RCONConnectionError"
    show ?thesis using reconnect_props[OF r] a eq by auto
  next
    assume a: "auto_reconnect c" "retry" and r: "reconnect c = (Inr True, c')" and eq: "res = Inr ()"
    show ?thesis using reconnect_props[OF r] a eq by auto
  qed
  from all show "same_config c c'" by blast
  from all show "command_sends cmd c' = command_sends cmd c" by blast
  from all show "opens c' \<le> opens c + nat (max_reconnect_attempts c)" by blast
  from all show "writer_while_connected c \<Longrightarrow> res = Inr () \<Longrightarrow> is_connected c' \<and> writer c' \<noteq> None" by blast
  from all show "res = Inl e \<Longrightarrow> e = RCONConnectionError \<or> \<not> is_RCONError e" by blast
  from all show "writer_while_connected c \<Longrightarrow> writer_while_connected c'" by blast
  from all show "\<not> (auto_reconnect c \<and> retry) \<Longrightarrow> c' = c \<and> (res = Inr () \<longrightarrow> is_connected c)" by blast
qed

lemma read_responses_props:
  assumes "read_responses rid rs c = (res, c')"
  shows "same_config c c'"
    and "writer c' = writer c"
    and "net c' = net c"
    and "command_sends cmd c' = command_sends cmd c"
    and "opens c' = opens c"
    and "res \<noteq> Inl RCONConnectionError \<Longrightarrow>
          connected c' = connected c \<and> authenticated c' = authenticated c"
    and "res = Inl e \<Longrightarrow> e = RCONConnectionError \<or> e = RCONTimeoutError \<or> e = RCONError \<or> e = StructError"
    and "res = Inr out \<Longrightarrow>
          \<exists>skipped p. trace c' = trace c @ map Received skipped @ [Received p]
            \<and> (\<forall>q\<in>set skipped. request_id q \<noteq> rid) \<and> request_id p = rid
            \<and> out = rs @ [payload p]"
proof -
  have all: "same_config c c' \<and> writer c' = writer c \<and> net c' = net c
    \<and> command_sends cmd c' = command_sends cmd c \<and> opens c' = opens c
    \<and> (res \<noteq> Inl RCONConnectionError \<longrightarrow>
          connected c' = connected c \<and> authenticated c' = authenticated c)
    \<and> (res = Inl e \<longrightarrow> e = RCONConnectionError \<or> e = RCONTimeoutError \<or> e = RCONError \<or> e = StructError)
    \<and> (res = Inr out \<longrightarrow>
          (\<exists>skipped p. trace c' = trace c @ map Received skipped @ [Received p]
            \<and> (\<forall>q\<in>set skipped. request_id q \<noteq> rid) \<and> request_id p = rid
            \<and> out = rs @ [payload p]))"
    using assms
  proof (induction rid rs c rule: read_responses.induct)
    case (1 rid responses c)
    obtain r1 c1 where rp: "receive_packet c = (r1, c1)" by (cases "receive_packet c")
    note pr = receive_packet_props[OF rp] receive_packet_counts[OF rp]
    show ?case
    proof (cases r1)
      case (Inl e1)
      then have eq: "res = Inl e1" "c' = c1"
        using "1.prems" rp by (auto simp: read_responses.simps[of rid responses c])
      show ?thesis unfolding eq
        using pr(1,2,3,5) pr(8)[of cmd] pr(9) receive_packet_error[of c e1 c1] rp Inl by auto
    next
      case (Inr response)
      show ?thesis
      proof (cases "request_id response = rid")
        case True
        then have eq: "res = Inr (responses @ [payload response])" "c' = c1"
          using "1.prems" rp Inr by (auto simp: read_responses.simps[of rid responses c])
        have t: "trace c1 = trace c @ map Received [] @ [Received response]"
          using pr(7)[of response] Inr by simp
        have "\<exists>skipped p. trace c1 = trace c @ map Received skipped @ [Received p]
            \<and> (\<forall>q\<in>set skipped. request_id q \<noteq> rid) \<and> request_id p = rid
            \<and> responses @ [payload response] = responses @ [payload p]"
          using t True by (intro exI[of _ "[]"] exI[of _ response]) simp
        then show ?thesis unfolding eq
          using pr(1,2,3,5) pr(8)[of cmd] pr(9) Inr by auto
      next
        case False
        then have rec: "read_responses rid responses c1 = (res, c')"
          using "1.prems" rp Inr by (auto simp: read_responses.simps[of rid responses c])
        note ih = "1.IH"[OF rp[symmetric] Inr False rec]
        have t: "trace c1 = trace c @ [Received response]" using pr(7)[of response] Inr by simp
        have flags: "connected c1 = connected c \<and> authenticated c1 = authenticated c"
          using pr(5) Inr by simp
        have tr: "\<exists>skipped p. trace c' = trace c @ map Received skipped @ [Received p]
            \<and> (\<forall>q\<in>set skipped. request_id q \<noteq> rid) \<and> request_id p = rid
            \<and> out = responses @ [payload p]" if "res = Inr out"
        proof -
          from ih that obtain skipped p where
            "trace c' = trace c1 @ map Received skipped @ [Received p]"
            "\<forall>q\<in>set skipped. request_id q \<noteq> rid" "request_id p = rid"
            "out = responses @ [payload p]" by blast
          then show ?thesis using t False
            by (intro exI[of _ "response # skipped"] exI[of _ p]) simp
        qed
        show ?thesis
          using ih tr flags same_config_trans[OF pr(1)] pr(2,3) pr(8)[of cmd] pr(9)
          by auto
      qed
    qed
  qed
  from all show "same_config c c'" by blast
  from all show "writer c' = writer c" by blast
  from all show "net c' = net c" by blast
  from all show "command_sends cmd c' = command_sends cmd c" by blast
  from all show "opens c' = opens c" by blast
  from all show "res \<noteq> Inl RCONConnectionError \<Longrightarrow>
          connected c' = connected c \<and> authenticated c' = authenticated c" by blast
  from all show "res = Inl e \<Longrightarrow> e = RCONConnectionError \<or> e = RCONTimeoutError \<or> e = RCONError \<or> e = StructError" by blast
  from all show "res = Inr out \<Longrightarrow>
          \<exists>skipped p. trace c' = trace c @ map Received skipped @ [Received p]
            \<and> (\<forall>q\<in>set skipped. request_id q \<noteq> rid) \<and> request_id p = rid
            \<and> out = rs @ [payload p]" by blast
qed



lemma encode_command_any_id:
  assumes "encode \<lparr>request_id = rid, packet_type = ty, payload = cmd\<rparr> = Inr d"
    and "- (2 ^ 31) \<le> rid'" "rid' < 2 ^ 31"
  shows "\<exists>d'. encode \<lparr>request_id = rid', packet_type = ty, payload = cmd\<rparr> = Inr d'"
proof -
  from assms(1) obtain u h1 h2 where
    u: "utf8_encode cmd = Inr u" and h1: "pack_i32 rid = Inr h1" and h2: "pack_i32 ty = Inr h2"
    by (auto simp: encode_def pack_ii_def Let_def split: sum.splits)
  obtain h1' where h1': "pack_i32 rid' = Inr h1'" using pack_i32_ok[OF assms(2,3)] by auto
  have l: "length h1' = 4" "length h1 = 4" "length h2 = 4"
    using h1 h1' h2 by (simp_all add: pack_i32_length)
  have "\<exists>sz. pack_i32 (int (length ((h1 @ h2) @ u @ [0, 0]))) = Inr sz"
    using assms(1) u h1 h2
    by (cases "pack_i32 (int (length ((h1 @ h2) @ u @ [0, 0])))")
       (simp_all add: encode_def pack_ii_def Let_def del: length_append append_assoc)
  moreover have "length ((h1' @ h2) @ u @ [0, 0]) = length ((h1 @ h2) @ u @ [0, 0])"
    using l by simp
  ultimately obtain sz where "pack_i32 (int (length ((h1' @ h2) @ u @ [0, 0]))) = Inr sz"
    by metis
  then show ?thesis using u h1' h2
    by (simp add: encode_def pack_ii_def Let_def del: length_append append_assoc)
qed

lemma send_and_collect_shape:
  assumes "send_and_collect pkt c = (res, c')"
  shows "(\<exists>e. send_packet pkt c = (Inl e, c') \<and> res = Inl e)
    \<or> (\<exists>c1. send_packet pkt c = (Inr (), c1) \<and>
         ((\<exists>e. read_responses (request_id pkt) [] c1 = (Inl e, c') \<and> res = Inl e)
          \<or> (\<exists>out. read_responses (request_id pkt) [] c1 = (Inr out, c') \<and> res = Inr (concat out))))"
  using assms
  by (auto simp: send_and_collect_def split: sum.splits prod.splits)

lemma send_and_collect_props:
  assumes "send_and_collect pkt c = (res, c')"
  shows "same_config c c'"
    and "net c' = net c"
    and "opens c' = opens c"
    and "command_sends cmd c' \<le> command_sends cmd c + 1"
    and "res \<noteq> Inl RCONConnectionError \<Longrightarrow>
          connected c' = connected c \<and> authenticated c' = authenticated c"
    and "res = Inl e \<Longrightarrow> e = RCONConnectionError \<or> e = RCONTimeoutError \<or> e = RCONError
          \<or> e = UnicodeEncodeError \<or> e = StructError"
    and "res = Inr s \<Longrightarrow>
          \<exists>skipped p. trace c' = trace c @ [Sent pkt] @ map Received skipped @ [Received p]
            \<and> (\<forall>q\<in>set skipped. request_id q \<noteq> request_id pkt)
            \<and> request_id p = request_id pkt \<and> s = payload p"
    and "writer c \<noteq> None \<Longrightarrow> is_command_send cmd (Sent pkt) \<Longrightarrow>
          command_sends cmd c' = command_sends cmd c + (if \<exists>d. encode pkt = Inr d then 1 else 0)"
    and "writer c \<noteq> None \<Longrightarrow> res = Inl RCONConnectionError \<or> res = Inl RCONTimeoutError
          \<Longrightarrow> \<exists>d. encode pkt = Inr d"
proof -
  have all: "same_config c c' \<and> net c' = net c \<and> opens c' = opens c
    \<and> command_sends cmd c' \<le> command_sends cmd c + 1
    \<and> (res \<noteq> Inl RCONConnectionError \<longrightarrow>
          connected c' = connected c \<and> authenticated c' = authenticated c)
    \<and> (res = Inl e \<longrightarrow> e = RCONConnectionError \<or> e = RCONTimeoutError \<or> e = RCONError
          \<or> e = UnicodeEncodeError \<or> e = StructError)
    \<and> (res = Inr s \<longrightarrow>
          (\<exists>skipped p. trace c' = trace c @ [Sent pkt] @ map Received skipped @ [Received p]
            \<and> (\<forall>q\<in>set skipped. request_id q \<noteq> request_id pkt)
            \<and> request_id p = request_id pkt \<and> s = payload p))
    \<and> (writer c \<noteq> None \<longrightarrow> is_command_send cmd (Sent pkt) \<longrightarrow>
          command_sends cmd c' = command_sends cmd c + (if \<exists>d. encode pkt = Inr d then 1 else 0))
    \<and> (writer c \<noteq> None \<longrightarrow> res = Inl RCONConnectionError \<or> res = Inl RCONTimeoutError
          \<longrightarrow> (\<exists>d. encode pkt = Inr d))"
    using send_and_collect_shape[OF assms]
  proof (elim disjE conjE exE)
    fix e1 assume s: "send_packet pkt c = (Inl e1, c')" and eq: "res = Inl e1"
    note ps = send_packet_props[OF s] send_packet_counts[OF s]
    have enc: "writer c \<noteq> None \<Longrightarrow> (\<exists>d. encode pkt = Inr d) \<longleftrightarrow> trace c' = trace c @ [Sent pkt]"
      using s by (auto simp: send_packet_def log_event_def mark_disconnected_def
          split: option.splits sum.splits prod.splits send_outcome.splits)
    have cnt: "writer c \<noteq> None \<Longrightarrow> is_command_send cmd (Sent pkt) \<Longrightarrow>
          command_sends cmd c' = command_sends cmd c + (if \<exists>d. encode pkt = Inr d then 1 else 0)"
      using enc ps(5) by (auto simp: command_sends_def)
    have enc2: "writer c \<noteq> None \<Longrightarrow> e1 = RCONConnectionError \<or> e1 = RCONTimeoutError
          \<Longrightarrow> \<exists>d. encode pkt = Inr d"
      using s by (auto simp: send_packet_def split: option.splits sum.splits prod.splits
          send_outcome.splits dest: encode_error)
    show ?thesis unfolding eq
      using ps(1,3,4,6) ps(10)[of cmd] ps(11) send_packet_error[OF s] cnt enc2 by auto
  next
    fix c1 e1
    assume s: "send_packet pkt c = (Inr (), c1)"
      and r: "read_responses (request_id pkt) [] c1 = (Inl e1, c')" and eq: "res = Inl e1"
    note ps = send_packet_props[OF s] send_packet_counts[OF s]
    note pr = read_responses_props[OF r]
    have t: "trace c1 = trace c @ [Sent pkt]" using ps(8) by simp
    have enc: "\<exists>d. encode pkt = Inr d"
      using s by (auto simp: send_packet_def split: option.splits sum.splits prod.splits)
    have cnt: "is_command_send cmd (Sent pkt) \<Longrightarrow> command_sends cmd c1 = command_sends cmd c + 1"
      using t by (simp add: command_sends_def)
    show ?thesis unfolding eq
      using same_config_trans[OF ps(1) pr(1)] ps(3,4,6) pr(3) pr(4)[of cmd] pr(5) pr(6)
        pr(7)[of e1] ps(10)[of cmd] ps(11) enc cnt
      by auto
  next
    fix c1 out
    assume s: "send_packet pkt c = (Inr (), c1)"
      and r: "read_responses (request_id pkt) [] c1 = (Inr out, c')" and eq: "res = Inr (concat out)"
    note ps = send_packet_props[OF s] send_packet_counts[OF s]
    note pr = read_responses_props[OF r]
    have t: "trace c1 = trace c @ [Sent pkt]" using ps(8) by simp
    have enc: "\<exists>d. encode pkt = Inr d"
      using s by (auto simp: send_packet_def split: option.splits sum.splits prod.splits)
    have cnt: "is_command_send cmd (Sent pkt) \<Longrightarrow> command_sends cmd c1 = command_sends cmd c + 1"
      using t by (simp add: command_sends_def)
    from pr(8)[OF refl] obtain skipped p where
      sk: "trace c' = trace c1 @ map Received skipped @ [Received p]"
        "\<forall>q\<in>set skipped. request_id q \<noteq> request_id pkt" "request_id p = request_id pkt"
        "out = [] @ [payload p]" by blast
    have tr: "\<exists>skipped p. trace c' = trace c @ [Sent pkt] @ map Received skipped @ [Received p]
            \<and> (\<forall>q\<in>set skipped. request_id q \<noteq> request_id pkt)
            \<and> request_id p = request_id pkt \<and> concat out = payload p"
      using sk t by (intro exI[of _ skipped] exI[of _ p]) simp
    show ?thesis unfolding eq
      using same_config_trans[OF ps(1) pr(1)] ps(3,4,6) pr(3) pr(4)[of cmd] pr(5) pr(6)
        ps(10)[of cmd] ps(11) enc cnt tr
      by auto
  qed
  from all show "same_config c c'" by blast
  from all show "net c' = net c" by blast
  from all show "opens c' = opens c" by blast
  from all show "command_sends cmd c' \<le> command_sends cmd c + 1" by blast
  from all show "res \<noteq> Inl RCONConnectionError \<Longrightarrow>
          connected c' = connected c \<and> authenticated c' = authenticated c" by blast
  from all show "res = Inl e \<Longrightarrow> e = RCONConnectionError \<or> e = RCONTimeoutError \<or> e = RCONError
          \<or> e = UnicodeEncodeError \<or> e = StructError" by blast
  from all show "res = Inr s \<Longrightarrow>
          \<exists>skipped p. trace c' = trace c @ [Sent pkt] @ map Received skipped @ [Received p]
            \<and> (\<forall>q\<in>set skipped. request_id q \<noteq> request_id pkt)
            \<and> request_id p = request_id pkt \<and> s = payload p" by blast
  from all show "writer c \<noteq> None \<Longrightarrow> is_command_send cmd (Sent pkt) \<Longrightarrow>
          command_sends cmd c' = command_sends cmd c + (if \<exists>d. encode pkt = Inr d then 1 else 0)" by blast
  from all show "writer c \<noteq> None \<Longrightarrow> res = Inl RCONConnectionError \<or> res = Inl RCONTimeoutError
          \<Longrightarrow> \<exists>d. encode pkt = Inr d" by blast
qed



lemma command_attempt_props:
  assumes "command_attempt command c = (res, c')"
  shows "same_config c c'"
    and "net c' = net c"
    and "opens c' = opens c"
    and "command_sends cmd c' \<le> command_sends cmd c + 1"
    and "res \<noteq> Inl RCONConnectionError \<Longrightarrow>
          connected c' = connected c \<and> authenticated c' = authenticated c"
    and "res = Inl e \<Longrightarrow> e = RCONConnectionError \<or> e = RCONTimeoutError \<or> e = RCONError
          \<or> e = UnicodeEncodeError \<or> e = StructError"
    and "res = Inr s \<Longrightarrow>
          \<exists>rid skipped p.
            trace c' = trace c @ [Sent \<lparr>request_id = rid, packet_type = SERVERDATA_EXECCOMMAND,
                                       payload = command\<rparr>]
                        @ map Received skipped @ [Received p]
            \<and> (\<forall>q\<in>set skipped. request_id q \<noteq> rid) \<and> request_id p = rid \<and> s = payload p"
    and "writer c \<noteq> None \<Longrightarrow>
          command_sends command c' = command_sends command c
            + (if \<exists>d. encode \<lparr>request_id = 0, packet_type = SERVERDATA_EXECCOMMAND,
                                payload = command\<rparr> = Inr d then 1 else 0)"
    and "writer c \<noteq> None \<Longrightarrow> res = Inl RCONConnectionError \<or> res = Inl RCONTimeoutError
          \<Longrightarrow> \<exists>d. encode \<lparr>request_id = 0, packet_type = SERVERDATA_EXECCOMMAND,
                                payload = command\<rparr> = Inr d"
proof -
  obtain rid c1 where n: "next_request_id c = (rid, c1)" by (cases "next_request_id c")
  let ?pkt = "\<lparr>request_id = rid, packet_type = SERVERDATA_EXECCOMMAND, payload = command\<rparr>"
  let ?p0 = "\<lparr>request_id = 0, packet_type = SERVERDATA_EXECCOMMAND, payload = command\<rparr>"
  have s: "send_and_collect ?pkt c1 = (res, c')"
    using assms n by (simp add: command_attempt_def)
  note pn = next_request_id_props[OF n]
  note ps = send_and_collect_props[OF s]
  have enc: "(\<exists>d. encode ?pkt = Inr d) \<longleftrightarrow> (\<exists>d. encode ?p0 = Inr d)"
    using encode_command_any_id[of rid SERVERDATA_EXECCOMMAND command _ 0]
      encode_command_any_id[of 0 SERVERDATA_EXECCOMMAND command _ rid] pn(8,9)
    by auto
  have cs: "is_command_send command (Sent ?pkt)" by simp
  show "same_config c c'" using same_config_trans[OF pn(1) ps(1)] .
  show "net c' = net c" using pn(5) ps(2) by simp
  show "opens c' = opens c" using pn(2) ps(3) by (simp add: opens_def)
  show "command_sends cmd c' \<le> command_sends cmd c + 1"
    using pn(2) ps(4)[of cmd] by (simp add: command_sends_def)
  show "connected c' = connected c \<and> authenticated c' = authenticated c"
    if "res \<noteq> Inl RCONConnectionError"
    using that pn(6,7) ps(5) by simp
  show "e = RCONConnectionError \<or> e = RCONTimeoutError \<or> e = RCONError
          \<or> e = UnicodeEncodeError \<or> e = StructError" if "res = Inl e"
    using that ps(6) by simp
  show "\<exists>rid skipped p.
            trace c' = trace c @ [Sent \<lparr>request_id = rid, packet_type = SERVERDATA_EXECCOMMAND,
                                       payload = command\<rparr>]
                        @ map Received skipped @ [Received p]
            \<and> (\<forall>q\<in>set skipped. request_id q \<noteq> rid) \<and> request_id p = rid \<and> s = payload p"
    if "res = Inr s"
    using ps(7)[OF that] pn(2) by (intro exI[of _ rid]) simp
  show "command_sends command c' = command_sends command c
            + (if \<exists>d. encode ?p0 = Inr d then 1 else 0)" if "writer c \<noteq> None"
    using ps(8)[of command] cs that pn(2,3) enc by (simp add: command_sends_def)
  show "\<exists>d. encode ?p0 = Inr d"
    if "writer c \<noteq> None" "res = Inl RCONConnectionError \<or> res = Inl RCONTimeoutError"
    using ps(9) that pn(3) enc by simp
qed

lemma mark_disconnected_props:
  shows "same_config c (mark_disconnected c)"
    and "command_sends cmd (mark_disconnected c) = command_sends cmd c"
    and "opens (mark_disconnected c) = opens c"
    and "\<not> connected (mark_disconnected c)"
    and "\<not> is_connected (mark_disconnected c)"
    and "trace (mark_disconnected c) = trace c"
  by (simp_all add: mark_disconnected_def same_config_def command_sends_def opens_def
      is_connected_def)

lemma execute_internal_no_retry:
  "execute_internal command False c =
     (if \<not> is_connected c then (Inl RCONConnectionError, c)
      else case command_attempt command c of
             (Inr result, c3) \<Rightarrow> (Inr result, c3)
           | (Inl e, c3) \<Rightarrow>
               if e = RCONConnectionError then (Inl e, mark_disconnected c3) else (Inl e, c3))"
  by (auto simp: execute_internal.simps[of command False c] ensure_connected_def
      split: sum.splits prod.splits)

lemma execute_internal_no_retry_sends:
  "command_sends cmd (snd (execute_internal command False c)) \<le> command_sends cmd c + 1"
proof -
  obtain r3 c3 where a: "command_attempt command c = (r3, c3)"
    by (cases "command_attempt command c")
  show ?thesis
    using command_attempt_props(4)[OF a, of cmd] mark_disconnected_props(2)[of cmd c3]
    by (auto simp: execute_internal_no_retry a split: sum.splits)
qed

lemma execute_internal_no_retry_sends_exactly:
  assumes "is_connected c" "writer c \<noteq> None"
    "encode \<lparr>request_id = 0, packet_type = SERVERDATA_EXECCOMMAND, payload = command\<rparr> = Inr d"
  shows "command_sends command (snd (execute_internal command False c)) = command_sends command c + 1"
proof -
  obtain r3 c3 where a: "command_attempt command c = (r3, c3)"
    by (cases "command_attempt command c")
  show ?thesis
    using command_attempt_props(8)[OF a assms(2)] assms(1,3)
      mark_disconnected_props(2)[of command c3]
    by (auto simp: execute_internal_no_retry a split: sum.splits)
qed

lemma execute_internal_sends:
  "command_sends cmd (snd (execute_internal command retry c)) \<le> command_sends cmd c + 2"
proof (cases retry)
  case False
  then show ?thesis using execute_internal_no_retry_sends[of cmd command c] by simp
next
  case True
  obtain r1 c1 where e: "ensure_connected True c = (r1, c1)" by (cases "ensure_connected True c")
  note pe = ensure_connected_props[OF e]
  show ?thesis
  proof (cases r1)
    case (Inl e1)
    then show ?thesis using e pe(2)[of cmd] True
      by (simp add: execute_internal.simps[of command True c])
  next
    case (Inr u)
    obtain r3 c3 where a: "command_attempt command c1 = (r3, c3)"
      by (cases "command_attempt command c1")
    note pa = command_attempt_props[OF a]
    have c3: "command_sends cmd c3 \<le> command_sends cmd c + 1"
      using pa(4)[of cmd] pe(2)[of cmd] by simp
    obtain r4 c4 where r: "reconnect (mark_disconnected c3) = (r4, c4)"
      by (cases "reconnect (mark_disconnected c3)")
    note pr = reconnect_props[OF r]
    have c4: "command_sends cmd c4 \<le> command_sends cmd c + 1"
      using pr(2)[of cmd] mark_disconnected_props(2)[of cmd c3] c3 by simp
    have fin: "command_sends cmd (snd (execute_internal command False c4)) \<le> command_sends cmd c + 2"
      using execute_internal_no_retry_sends[of cmd command c4] c4 by simp
    show ?thesis
      using True e Inr a r c3 c4 fin mark_disconnected_props(2)[of cmd c3]
      by (auto simp: execute_internal.simps[of command True c] split: sum.splits)
  qed
qed

subsection \<open>The connected flag and the writer\<close>

lemma send_packet_writer_while_connected:
  "send_packet p c = (res, c') \<Longrightarrow> writer_while_connected c \<Longrightarrow> writer_while_connected c'"
  by (auto simp: send_packet_def writer_while_connected_def log_event_def mark_disconnected_def
      split: option.splits sum.splits prod.splits send_outcome.splits)

lemma receive_packet_writer_while_connected:
  "receive_packet c = (res, c') \<Longrightarrow> writer_while_connected c \<Longrightarrow> writer_while_connected c'"
  by (auto simp: receive_packet_def receive_failed_eq writer_while_connected_def log_event_def
      mark_disconnected_def split: option.splits sum.splits prod.splits if_splits)

lemma read_responses_writer_while_connected:
  "read_responses rid rs c = (res, c') \<Longrightarrow> writer_while_connected c \<Longrightarrow> writer_while_connected c'"
proof (induction rid rs c rule: read_responses.induct)
  case (1 rid responses c)
  obtain r1 c1 where rp: "receive_packet c = (r1, c1)" by (cases "receive_packet c")
  have w1: "writer_while_connected c1"
    using receive_packet_writer_while_connected[OF rp "1.prems"(2)] .
  show ?case
  proof (cases r1)
    case (Inl e)
    then show ?thesis using "1.prems"(1) rp w1
      by (simp add: read_responses.simps[of rid responses c])
  next
    case (Inr response)
    show ?thesis
    proof (cases "request_id response = rid")
      case True
      then show ?thesis using "1.prems"(1) rp Inr w1
        by (simp add: read_responses.simps[of rid responses c])
    next
      case False
      then have "read_responses rid responses c1 = (res, c')"
        using "1.prems"(1) rp Inr by (simp add: read_responses.simps[of rid responses c])
      from "1.IH"[OF rp[symmetric] Inr False this w1] show ?thesis .
    qed
  qed
qed

lemma command_attempt_writer_while_connected:
  assumes "command_attempt command c = (res, c')" "writer_while_connected c"
  shows "writer_while_connected c'"
proof -
  obtain rid c0 where n: "next_request_id c = (rid, c0)" by (cases "next_request_id c")
  have w0: "writer_while_connected c0"
    using next_request_id_props(3,6)[OF n] assms(2) by (simp add: writer_while_connected_def)
  let ?pkt = "\<lparr>request_id = rid, packet_type = SERVERDATA_EXECCOMMAND, payload = command\<rparr>"
  have s: "send_and_collect ?pkt c0 = (res, c')"
    using assms(1) n by (simp add: command_attempt_def)
  from send_and_collect_shape[OF s] show ?thesis
    by (auto dest: send_packet_writer_while_connected[OF _ w0]
        read_responses_writer_while_connected)
qed

lemma execute_internal_writer_while_connected:
  assumes "writer_while_connected c"
  shows "writer_while_connected (snd (execute_internal command retry c))"
proof -
  have mark: "writer_while_connected (mark_disconnected x)" for x
    by (simp add: writer_while_connected_def mark_disconnected_def)
  have no_retry: "writer_while_connected (snd (execute_internal command False x))"
    if "writer_while_connected x" for x
  proof -
    obtain r3 c3 where a: "command_attempt command x = (r3, c3)"
      by (cases "command_attempt command x")
    show ?thesis
      using command_attempt_writer_while_connected[OF a that] that mark[of c3]
      by (auto simp: execute_internal_no_retry a split: sum.splits)
  qed
  show ?thesis
  proof (cases retry)
    case False
    then show ?thesis using no_retry[OF assms] by simp
  next
    case True
    obtain r1 c1 where e: "ensure_connected True c = (r1, c1)" by (cases "ensure_connected True c")
    have w1: "writer_while_connected c1" using ensure_connected_props(6)[OF e assms] .
    obtain r3 c3 where a: "command_attempt command c1 = (r3, c3)"
      by (cases "command_attempt command c1")
    have w3: "writer_while_connected c3" using command_attempt_writer_while_connected[OF a w1] .
    obtain r4 c4 where r: "reconnect (mark_disconnected c3) = (r4, c4)"
      by (cases "reconnect (mark_disconnected c3)")
    have w4: "writer_while_connected c4" using reconnect_props(7)[OF r mark] .
    show ?thesis
      using True e a r w1 w3 w4 mark[of c3] no_retry[OF w4]
      by (auto simp: execute_internal.simps[of command True c] split: sum.splits)
  qed
qed

lemma writer_while_connected_invariant:
  shows "writer_while_connected (init_client pw n)"
    and "writer_while_connected c \<Longrightarrow> writer_while_connected (snd (connect c))"
    and "writer_while_connected c \<Longrightarrow> writer_while_connected (disconnect c)"
    and "writer_while_connected c \<Longrightarrow> writer_while_connected (snd (execute command c))"
proof -
  show "writer_while_connected (init_client pw n)"
    by (simp add: writer_while_connected_def init_client_def)
  show "writer_while_connected (snd (connect c))" if "writer_while_connected c"
    using connect_internal_props(9)[of c "fst (connect_internal c)" "snd (connect_internal c)"] that
    by (simp add: connect_def)
  show "writer_while_connected (disconnect c)" if "writer_while_connected c"
    using disconnect_internal_props(7)[OF that] by (simp add: disconnect_def)
  show "writer_while_connected (snd (execute command c))" if "writer_while_connected c"
    using execute_internal_writer_while_connected[OF that] by (simp add: execute_def)
qed

section \<open>The retry policy of \<^verbatim>\<open>execute\<close>\<close>

text \<open>
  C1. Whatever the client's state and whatever the network does, one call of \<^verbatim>\<open>execute\<close>
  writes the command packet at most twice. When the first attempt fails with a connection
  error (on a client with automatic reconnection whose connected flag is set only while it
  holds a writer, which every client state reached from \<^verbatim>\<open>__init__\<close> satisfies) and the
  reconnection that follows succeeds, the first attempt has written the command once, the
  reconnection writes no command, and the rest of the call is the run with \<^verbatim>\<open>retry=False\<close>,
  which writes the same command exactly once more.
\<close>

theorem command_sent_at_most_twice:
  "command_sends command (snd (execute command c)) \<le> command_sends command c + 2
   \<and> (writer_while_connected c \<and> auto_reconnect c
        \<and> ensure_connected True c = (Inr (), c1)
        \<and> command_attempt command c1 = (Inl RCONConnectionError, c3)
        \<and> reconnect (mark_disconnected c3) = (Inr True, c4)
      \<longrightarrow> command_sends command c3 = command_sends command c + 1
          \<and> command_sends command c4 = command_sends command c3
          \<and> execute command c = execute_internal command False c4
          \<and> command_sends command (snd (execute command c)) = command_sends command c4 + 1)"
proof (intro conjI impI)
  show "command_sends command (snd (execute command c)) \<le> command_sends command c + 2"
    unfolding execute_def by (rule execute_internal_sends)
next
  assume h: "writer_while_connected c \<and> auto_reconnect c
        \<and> ensure_connected True c = (Inr (), c1)
        \<and> command_attempt command c1 = (Inl RCONConnectionError, c3)
        \<and> reconnect (mark_disconnected c3) = (Inr True, c4)"
  then have e: "ensure_connected True c = (Inr (), c1)"
    and a: "command_attempt command c1 = (Inl RCONConnectionError, c3)"
    and r: "reconnect (mark_disconnected c3) = (Inr True, c4)"
    and wc: "writer_while_connected c" and ar: "auto_reconnect c" by blast+
  note pe = ensure_connected_props[OF e]
  note pa = command_attempt_props[OF a]
  note pr = reconnect_props[OF r]
  have w1: "is_connected c1" "writer c1 \<noteq> None" using pe(4)[OF wc] by simp_all
  obtain d where d: "encode \<lparr>request_id = 0, packet_type = SERVERDATA_EXECCOMMAND,
                               payload = command\<rparr> = Inr d"
    using pa(9)[OF w1(2)] by auto
  have ar3: "auto_reconnect c3"
    using ar same_config_trans[OF pe(1) pa(1)] by (simp add: same_config_def)
  have w4: "is_connected c4" "writer c4 \<noteq> None"
    using pr(4) mark_disconnected_props(4)[of c3] by simp_all
  show c3: "command_sends command c3 = command_sends command c + 1"
    using pa(8)[OF w1(2)] d pe(2)[of command] by simp
  show c4: "command_sends command c4 = command_sends command c3"
    using pr(2)[of command] mark_disconnected_props(2)[of command c3] by simp
  show ex: "execute command c = execute_internal command False c4"
    using e a r ar3 by (simp add: execute_def execute_internal.simps[of command True c])
  show "command_sends command (snd (execute command c)) = command_sends command c4 + 1"
    unfolding ex by (rule execute_internal_no_retry_sends_exactly[OF w4 d])
qed


theorem command_sent_at_most_twice_witness:
  "writer_while_connected dropping_then_answering
   \<and> auto_reconnect dropping_then_answering
   \<and> fst (ensure_connected True dropping_then_answering) = Inr ()
   \<and> fst (command_attempt cmd_list (snd (ensure_connected True dropping_then_answering)))
       = Inl RCONConnectionError
   \<and> fst (reconnect (mark_disconnected
         (snd (command_attempt cmd_list (snd (ensure_connected True dropping_then_answering))))))
       = Inr True
   \<and> command_sends cmd_list dropping_then_answering = 0
   \<and> command_sends cmd_list (snd (execute cmd_list dropping_then_answering)) = 2
   \<and> fst (execute cmd_list dropping_then_answering) = Inr [0x68, 0x69]"
proof -
  define c1 where "c1 = snd (ensure_connected True dropping_then_answering)"
  define c3 where "c3 = snd (command_attempt cmd_list c1)"
  define c4 where "c4 = snd (reconnect (mark_disconnected c3))"
  have w: "writer_while_connected dropping_then_answering" by code_simp
  have ar: "auto_reconnect dropping_then_answering" by code_simp
  have f1: "fst (ensure_connected True dropping_then_answering) = Inr ()" by code_simp
  have f2: "fst (command_attempt cmd_list (snd (ensure_connected True dropping_then_answering)))
       = Inl RCONConnectionError" by code_simp
  have f3: "fst (reconnect (mark_disconnected
         (snd (command_attempt cmd_list (snd (ensure_connected True dropping_then_answering))))))
       = Inr True" by code_simp
  have z: "command_sends cmd_list dropping_then_answering = 0" by code_simp
  have res: "fst (execute cmd_list dropping_then_answering) = Inr [0x68, 0x69]" by code_simp
  have e: "ensure_connected True dropping_then_answering = (Inr (), c1)"
    using f1 by (simp add: c1_def prod_eq_iff)
  have a: "command_attempt cmd_list c1 = (Inl RCONConnectionError, c3)"
    using f2 by (simp add: c1_def c3_def prod_eq_iff)
  have r: "reconnect (mark_disconnected c3) = (Inr True, c4)"
    using f3 by (simp add: c1_def c3_def c4_def prod_eq_iff)
  from command_sent_at_most_twice [of cmd_list dropping_then_answering c1 c3 c4] w ar e a r
  have k: "command_sends cmd_list c3 = command_sends cmd_list dropping_then_answering + 1"
    "command_sends cmd_list c4 = command_sends cmd_list c3"
    "command_sends cmd_list (snd (execute cmd_list dropping_then_answering))
     = command_sends cmd_list c4 + 1"
    by blast+
  with z have "command_sends cmd_list (snd (execute cmd_list dropping_then_answering)) = 2"
    by simp
  with w ar f1 f2 f3 z res show ?thesis by blast
qed

section \<open>Authentication failures\<close>










section \<open>The handshake\<close>

text \<open>The outcome of \<^verbatim>\<open>connect\<close> once the connection is open and the \<^verbatim>\<open>Auth\<close> packet is sent,
  in terms of what the two reads of \<^verbatim>\<open>_authenticate\<close> give.\<close>

lemma connect_handshake:
  assumes nc: "\<not> connected c"
    and op: "open_connection (net c) = (Inr (r, w), n)"
    and nx: "next_request_id ((log_event Opened c)\<lparr>net := n, reader := Some r, writer := Some w,
            connected := True\<rparr>) = (auth_id, c1)"
    and sp: "send_packet \<lparr>request_id = auth_id, packet_type = SERVERDATA_AUTH,
            payload = password c\<rparr> c1 = (Inr (), c2)"
    and ra: "read_auth_response c2 = (res, c3)"
  shows "connect c =
     (case res of
        Inl e \<Rightarrow> (Inl e, if is_RCONError e then mark_disconnected c3 else c3)
      | Inr response \<Rightarrow>
          if request_id response = - 1 \<or> request_id response \<noteq> auth_id
          then (Inl RCONAuthenticationError, mark_disconnected c3)
          else (Inr (), c3\<lparr>authenticated := True\<rparr>))"
proof -
  let ?c0 = "(log_event Opened c)\<lparr>net := n, reader := Some r, writer := Some w, connected := True\<rparr>"
  let ?pkt = "\<lparr>request_id = auth_id, packet_type = SERVERDATA_AUTH, payload = password c\<rparr>"
  have pw: "password c1 = password c"
    using next_request_id_props(1)[OF nx] by (simp add: same_config_def log_event_def)
  have t: "authenticate_try auth_id ?pkt c1 =
     (case res of
        Inl e \<Rightarrow> (Inl e, c3)
      | Inr response \<Rightarrow>
          if request_id response = - 1 \<or> request_id response \<noteq> auth_id
          then (Inl RCONAuthenticationError, c3\<lparr>connected := False\<rparr>)
          else (Inr (), c3\<lparr>authenticated := True\<rparr>))"
    using sp ra by (auto simp: authenticate_try_def split: sum.splits)
  have a: "authenticate ?c0 =
     (case res of
        Inl e \<Rightarrow> (Inl e, if is_RCONError e then mark_disconnected c3 else c3)
      | Inr response \<Rightarrow>
          if request_id response = - 1 \<or> request_id response \<noteq> auth_id
          then (Inl RCONAuthenticationError, mark_disconnected c3)
          else (Inr (), c3\<lparr>authenticated := True\<rparr>))"
    using nx t pw by (auto simp: authenticate_def mark_disconnected_def split: sum.splits)
  show ?thesis
    using nc op a by (simp add: connect_def connect_internal_def)
qed

text \<open>
  C5, as the claim states it, fails. The server's first packet has request id -1, the type
  of a response value and a payload that is not empty, so it is not the empty leading
  packet, and it is the authoritative response in the claim's sense. \<^verbatim>\<open>_authenticate\<close> looks
  at its type alone, discards it and examines the next packet, which echoes the request
  id: \<^verbatim>\<open>connect\<close> returns and the client is connected.
\<close>

theorem rejection_in_leading_packet_counterexample:
  "fst (connect rejection_in_leading_packet) = Inr ()
   \<and> is_connected (snd (connect rejection_in_leading_packet))
   \<and> trace (snd (connect rejection_in_leading_packet))
     = [Opened,
        Sent \<lparr>request_id = 1, packet_type = 3, payload = [0x70, 0x77]\<rparr>,
        Received \<lparr>request_id = - 1, packet_type = 0, payload = [0x78]\<rparr>,
        Received \<lparr>request_id = 1, packet_type = 2, payload = []\<rparr>]"
  by code_simp

text \<open>
  C5, amended. Take a \<^verbatim>\<open>connect\<close> on a client that is not connected, in which the connection
  opens, the \<^verbatim>\<open>Auth\<close> packet is sent, and the response that \<^verbatim>\<open>_authenticate\<close> examines has
  request id -1; that response is the first packet received when its type is not
  \<^verbatim>\<open>SERVERDATA_RESPONSE_VALUE\<close>, and the second packet received when the first has that type.
  Then \<^verbatim>\<open>connect\<close> raises \<^verbatim>\<open>RCONAuthenticationError\<close>; nothing happens after the response is
  read but the reset of the two flags, so the client is not connected, one connection has
  been opened, and the rest of the network is untouched: there is no reconnection attempt.
\<close>

theorem rejected_credential:
  assumes "\<not> connected c"
    and "open_connection (net c) = (Inr (r, w), n)"
    and "next_request_id ((log_event Opened c)\<lparr>net := n, reader := Some r, writer := Some w,
            connected := True\<rparr>) = (auth_id, c1)"
    and "send_packet \<lparr>request_id = auth_id, packet_type = SERVERDATA_AUTH,
            payload = password c\<rparr> c1 = (Inr (), c2)"
    and "receive_packet c2 = (Inr first, c3)"
    and "(packet_type first \<noteq> SERVERDATA_RESPONSE_VALUE \<and> response = first \<and> c4 = c3)
         \<or> (packet_type first = SERVERDATA_RESPONSE_VALUE
             \<and> receive_packet c3 = (Inr response, c4))"
    and "request_id response = - 1"
  shows "connect c = (Inl RCONAuthenticationError, mark_disconnected c4)
    \<and> \<not> is_connected (snd (connect c))
    \<and> \<not> connected (snd (connect c)) \<and> \<not> authenticated (snd (connect c))
    \<and> opens (snd (connect c)) = opens c + 1
    \<and> net (snd (connect c)) = n"
proof -
  have ra: "read_auth_response c2 = (Inr response, c4)"
    using assms(5,6) by (auto simp: read_auth_response_def)
  have c: "connect c = (Inl RCONAuthenticationError, mark_disconnected c4)"
    using connect_handshake[OF assms(1-4) ra] assms(7) by simp
  have o: "opens c4 = opens c + 1"
    using next_request_id_props(2)[OF assms(3)] send_packet_counts(2)[OF assms(4)]
      read_auth_response_props(7)[OF ra]
    by (simp add: opens_def log_event_def)
  have nn: "net c4 = n"
    using next_request_id_props(5)[OF assms(3)] send_packet_props(3)[OF assms(4)]
      read_auth_response_props(3)[OF ra]
    by simp
  show ?thesis
    unfolding c using o nn
    by (simp add: mark_disconnected_def is_connected_def opens_def)
qed

theorem rejected_credential_witness:
  "\<not> connected rejecting_after_empty
   \<and> fst (connect rejecting_after_empty) = Inl RCONAuthenticationError
   \<and> \<not> is_connected (snd (connect rejecting_after_empty))
   \<and> opens (snd (connect rejecting_after_empty)) = 1
   \<and> net (snd (connect rejecting_after_empty))
     = [Accepted \<lparr>buffer = server_frame 2 2 [], at_end = Silent\<rparr> [Drained]]
   \<and> trace (snd (connect rejecting_after_empty))
     = [Opened,
        Sent \<lparr>request_id = 1, packet_type = 3, payload = [0x70, 0x77]\<rparr>,
        Received \<lparr>request_id = 1, packet_type = 0, payload = []\<rparr>,
        Received \<lparr>request_id = - 1, packet_type = 2, payload = []\<rparr>]
   \<and> \<not> connected rejecting_twice
   \<and> fst (connect rejecting_twice) = Inl RCONAuthenticationError
   \<and> \<not> is_connected (snd (connect rejecting_twice))
   \<and> opens (snd (connect rejecting_twice)) = 1
   \<and> trace (snd (connect rejecting_twice))
     = [Opened,
        Sent \<lparr>request_id = 1, packet_type = 3, payload = [0x70, 0x77]\<rparr>,
        Received \<lparr>request_id = - 1, packet_type = 2, payload = []\<rparr>]"
proof -
  let ?pkt = "\<lparr>request_id = 1, packet_type = SERVERDATA_AUTH, payload = [0x70, 0x77]\<rparr>"
  let ?no = "\<lparr>request_id = - 1, packet_type = 2, payload = []\<rparr>"
  have id: "request_id ?no = - 1" by simp
  \<comment> \<open>an empty response-value packet, then the rejection\<close>
  let ?r = "\<lparr>buffer = server_frame 1 0 [] @ server_frame (- 1) 2 [], at_end = Silent\<rparr>"
  let ?n = "[Accepted \<lparr>buffer = server_frame 2 2 [], at_end = Silent\<rparr> [Drained]]"
  let ?c0 = "(log_event Opened rejecting_after_empty)\<lparr>net := ?n, reader := Some ?r,
               writer := Some [Drained], connected := True\<rparr>"
  let ?first = "\<lparr>request_id = 1, packet_type = 0, payload = []\<rparr>"
  define c1 where "c1 = snd (next_request_id ?c0)"
  define c2 where "c2 = snd (send_packet ?pkt c1)"
  define c3 where "c3 = snd (receive_packet c2)"
  define c4 where "c4 = snd (receive_packet c3)"
  have h1: "\<not> connected rejecting_after_empty" by code_simp
  have pw: "password rejecting_after_empty = [0x70, 0x77]" by code_simp
  have h2: "open_connection (net rejecting_after_empty) = (Inr (?r, [Drained]), ?n)"
    by (simp add: rejecting_after_empty_def init_client_def)
  have h3: "next_request_id ?c0 = (1, c1)"
    unfolding c1_def by (simp add: next_request_id_def rejecting_after_empty_def init_client_def
        log_event_def)
  have "fst (send_packet ?pkt (snd (next_request_id ?c0))) = Inr ()" by code_simp
  then have h4: "send_packet \<lparr>request_id = 1, packet_type = SERVERDATA_AUTH,
            payload = password rejecting_after_empty\<rparr> c1 = (Inr (), c2)"
    unfolding pw by (simp add: c1_def c2_def prod_eq_iff)
  have "fst (receive_packet (snd (send_packet ?pkt (snd (next_request_id ?c0))))) = Inr ?first"
    by code_simp
  then have h5: "receive_packet c2 = (Inr ?first, c3)"
    by (simp add: c1_def c2_def c3_def prod_eq_iff)
  have "fst (receive_packet (snd (receive_packet (snd (send_packet ?pkt
          (snd (next_request_id ?c0))))))) = Inr ?no"
    by code_simp
  then have "receive_packet c3 = (Inr ?no, c4)"
    by (simp add: c1_def c2_def c3_def c4_def prod_eq_iff)
  then have h6: "(packet_type ?first \<noteq> SERVERDATA_RESPONSE_VALUE \<and> ?no = ?first \<and> c4 = c3)
         \<or> (packet_type ?first = SERVERDATA_RESPONSE_VALUE \<and> receive_packet c3 = (Inr ?no, c4))"
    by (simp add: SERVERDATA_RESPONSE_VALUE_def)
  have z: "opens rejecting_after_empty = 0" by code_simp
  have tr: "trace (snd (connect rejecting_after_empty))
     = [Opened,
        Sent \<lparr>request_id = 1, packet_type = 3, payload = [0x70, 0x77]\<rparr>,
        Received \<lparr>request_id = 1, packet_type = 0, payload = []\<rparr>,
        Received \<lparr>request_id = - 1, packet_type = 2, payload = []\<rparr>]"
    by code_simp
  note t = rejected_credential [OF h1 h2 h3 h4 h5 h6 id]
  from t have "connect rejecting_after_empty = (Inl RCONAuthenticationError, mark_disconnected c4)"
    by blast
  then have a: "fst (connect rejecting_after_empty) = Inl RCONAuthenticationError" by simp
  from t have b: "\<not> is_connected (snd (connect rejecting_after_empty))"
    "net (snd (connect rejecting_after_empty)) = ?n" by blast+
  from t have "opens (snd (connect rejecting_after_empty)) = opens rejecting_after_empty + 1"
    by blast
  with z have o: "opens (snd (connect rejecting_after_empty)) = 1" by simp
  \<comment> \<open>the rejection as the first packet\<close>
  let ?r' = "\<lparr>buffer = server_frame (- 1) 2 [], at_end = Silent\<rparr>"
  let ?n' = "[Accepted \<lparr>buffer = server_frame (- 1) 2 [], at_end = Silent\<rparr> [Drained]]"
  let ?d0 = "(log_event Opened rejecting_twice)\<lparr>net := ?n', reader := Some ?r',
               writer := Some [Drained], connected := True\<rparr>"
  define d1 where "d1 = snd (next_request_id ?d0)"
  define d2 where "d2 = snd (send_packet ?pkt d1)"
  define d3 where "d3 = snd (receive_packet d2)"
  have k1: "\<not> connected rejecting_twice" by code_simp
  have pw': "password rejecting_twice = [0x70, 0x77]" by code_simp
  have k2: "open_connection (net rejecting_twice) = (Inr (?r', [Drained]), ?n')"
    by (simp add: rejecting_twice_def init_client_def)
  have k3: "next_request_id ?d0 = (1, d1)"
    unfolding d1_def by (simp add: next_request_id_def rejecting_twice_def init_client_def
        log_event_def)
  have "fst (send_packet ?pkt (snd (next_request_id ?d0))) = Inr ()" by code_simp
  then have k4: "send_packet \<lparr>request_id = 1, packet_type = SERVERDATA_AUTH,
            payload = password rejecting_twice\<rparr> d1 = (Inr (), d2)"
    unfolding pw' by (simp add: d1_def d2_def prod_eq_iff)
  have "fst (receive_packet (snd (send_packet ?pkt (snd (next_request_id ?d0))))) = Inr ?no"
    by code_simp
  then have k5: "receive_packet d2 = (Inr ?no, d3)"
    by (simp add: d1_def d2_def d3_def prod_eq_iff)
  have k6: "(packet_type ?no \<noteq> SERVERDATA_RESPONSE_VALUE \<and> ?no = ?no \<and> d3 = d3)
         \<or> (packet_type ?no = SERVERDATA_RESPONSE_VALUE \<and> receive_packet d3 = (Inr ?no, d3))"
    by (simp add: SERVERDATA_RESPONSE_VALUE_def)
  have z': "opens rejecting_twice = 0" by code_simp
  have tr': "trace (snd (connect rejecting_twice))
     = [Opened,
        Sent \<lparr>request_id = 1, packet_type = 3, payload = [0x70, 0x77]\<rparr>,
        Received \<lparr>request_id = - 1, packet_type = 2, payload = []\<rparr>]"
    by code_simp
  note t' = rejected_credential [OF k1 k2 k3 k4 k5 k6 id]
  from t' have "connect rejecting_twice = (Inl RCONAuthenticationError, mark_disconnected d3)"
    by blast
  then have a': "fst (connect rejecting_twice) = Inl RCONAuthenticationError" by simp
  from t' have b': "\<not> is_connected (snd (connect rejecting_twice))" by blast
  from t' have "opens (snd (connect rejecting_twice)) = opens rejecting_twice + 1" by blast
  with z' have o': "opens (snd (connect rejecting_twice)) = 1" by simp
  from h1 a b o tr k1 a' b' o' tr' show ?thesis by simp
qed

section \<open>Timeouts\<close>

text \<open>
  C6, as the claim states it, fails. On a connected client without automatic
  reconnection, \<^verbatim>\<open>execute\<close> raises \<^verbatim>\<open>RCONTimeoutError\<close> when the server is late, and both
  flags stay set: \<^verbatim>\<open>is_connected\<close> is true afterwards. The next \<^verbatim>\<open>execute\<close> writes its command
  to the same transport without any connection being opened, skips the late answer to the
  first command and returns the answer to its own.
\<close>

theorem timeout_leaves_connected_counterexample:
  "fst (execute cmd_list slow_server_no_reconnect) = Inl RCONTimeoutError
   \<and> is_connected (snd (execute cmd_list slow_server_no_reconnect))
   \<and> fst (execute cmd_list (snd (execute cmd_list slow_server_no_reconnect))) = Inr [0x6F, 0x6B]
   \<and> trace (snd (execute cmd_list (snd (execute cmd_list slow_server_no_reconnect))))
     = [Sent \<lparr>request_id = 2, packet_type = 2, payload = cmd_list\<rparr>,
        Sent \<lparr>request_id = 3, packet_type = 2, payload = cmd_list\<rparr>,
        Received \<lparr>request_id = 2, packet_type = 0, payload = [0x68, 0x69]\<rparr>,
        Received \<lparr>request_id = 3, packet_type = 0, payload = [0x6F, 0x6B]\<rparr>]"
  by code_simp


lemma execute_internal_timeout_no_reconnect:
  assumes "\<not> (auto_reconnect c \<and> retry)"
    and "fst (execute_internal command retry c) = Inl RCONTimeoutError"
  shows "is_connected (snd (execute_internal command retry c))"
proof -
  obtain r1 c1 where e: "ensure_connected retry c = (r1, c1)" by (cases "ensure_connected retry c")
  note pe = ensure_connected_props[OF e]
  have c1: "c1 = c" using pe(7) assms(1) by simp
  show ?thesis
  proof (cases r1)
    case (Inl e1)
    then have "e1 = RCONTimeoutError" using e assms(2)
      by (simp add: execute_internal.simps[of command retry c])
    then show ?thesis using pe(5)[of e1] Inl by simp
  next
    case (Inr u)
    then have ic: "is_connected c" using pe(7) assms(1) by simp
    obtain r3 c3 where a: "command_attempt command c = (r3, c3)"
      by (cases "command_attempt command c")
    note pa = command_attempt_props[OF a]
    have ar: "auto_reconnect c3 = auto_reconnect c" using pa(1) by (simp add: same_config_def)
    have "r3 = Inl RCONTimeoutError \<and> snd (execute_internal command retry c) = c3"
      using assms e Inr a ar unfolding c1
      by (auto simp: execute_internal.simps[of command retry c] split: sum.splits if_splits)
    then show ?thesis using pa(5) ic by (simp add: is_connected_def)
  qed
qed

text \<open>
  C6, amended. A timeout error that \<^verbatim>\<open>connect\<close> raises leaves the client not connected. A
  timeout error that \<^verbatim>\<open>execute\<close> raises leaves both flags set, and \<^verbatim>\<open>is_connected\<close> true, when
  automatic reconnection is disabled, and so does a timeout in the retried run
  (\<^verbatim>\<open>retry=False\<close>); with automatic reconnection enabled, a timeout in the first attempt
  resets the flags and starts the reconnection, and when that fails \<^verbatim>\<open>execute\<close> raises the
  timeout error with the client not connected.
\<close>

theorem timeout_post_state:
  "(fst (connect c) = Inl RCONTimeoutError
      \<longrightarrow> \<not> connected (snd (connect c)) \<and> \<not> authenticated (snd (connect c))
          \<and> \<not> is_connected (snd (connect c)))
   \<and> (\<not> auto_reconnect c \<and> fst (execute command c) = Inl RCONTimeoutError
      \<longrightarrow> is_connected (snd (execute command c)))
   \<and> (fst (execute_internal command False c) = Inl RCONTimeoutError
      \<longrightarrow> is_connected (snd (execute_internal command False c)))
   \<and> (auto_reconnect c \<and> ensure_connected True c = (Inr (), c1)
        \<and> command_attempt command c1 = (Inl RCONTimeoutError, c3)
        \<and> reconnect (mark_disconnected c3) = (Inr False, c4)
      \<longrightarrow> execute command c = (Inl RCONTimeoutError, c4) \<and> \<not> is_connected c4)"
proof (intro conjI impI)
  assume h: "fst (connect c) = Inl RCONTimeoutError"
  obtain r1 c' where ci: "connect_internal c = (r1, c')" by (cases "connect_internal c")
  from h ci have "r1 = Inl RCONTimeoutError" by (simp add: connect_def)
  from connect_internal_props(7)[OF ci this] ci
  show "\<not> connected (snd (connect c))" "\<not> authenticated (snd (connect c))"
    "\<not> is_connected (snd (connect c))"
    by (simp_all add: connect_def is_connected_def)
next
  assume "\<not> auto_reconnect c \<and> fst (execute command c) = Inl RCONTimeoutError"
  then show "is_connected (snd (execute command c))"
    using execute_internal_timeout_no_reconnect[of c True command] by (simp add: execute_def)
next
  assume "fst (execute_internal command False c) = Inl RCONTimeoutError"
  then show "is_connected (snd (execute_internal command False c))"
    using execute_internal_timeout_no_reconnect[of c False command] by simp
next
  assume h: "auto_reconnect c \<and> ensure_connected True c = (Inr (), c1)
        \<and> command_attempt command c1 = (Inl RCONTimeoutError, c3)
        \<and> reconnect (mark_disconnected c3) = (Inr False, c4)"
  then have e: "ensure_connected True c = (Inr (), c1)"
    and a: "command_attempt command c1 = (Inl RCONTimeoutError, c3)"
    and r: "reconnect (mark_disconnected c3) = (Inr False, c4)" and ar: "auto_reconnect c"
    by blast+
  have ar3: "auto_reconnect c3"
    using ar same_config_trans[OF ensure_connected_props(1)[OF e] command_attempt_props(1)[OF a]]
    by (simp add: same_config_def)
  show "execute command c = (Inl RCONTimeoutError, c4)"
    using e a r ar3 by (simp add: execute_def execute_internal.simps[of command True c])
  show "\<not> is_connected c4"
    using reconnect_props(5)[OF r] mark_disconnected_props(4)[of c3] by (simp add: is_connected_def)
qed


theorem timeout_post_state_witness:
  "fst (connect silent_server) = Inl RCONTimeoutError
   \<and> \<not> is_connected (snd (connect silent_server))
   \<and> \<not> auto_reconnect slow_server_no_reconnect
   \<and> fst (execute cmd_list slow_server_no_reconnect) = Inl RCONTimeoutError
   \<and> is_connected (snd (execute cmd_list slow_server_no_reconnect))
   \<and> fst (execute_internal cmd_list False (ready_client [] [Drained])) = Inl RCONTimeoutError
   \<and> is_connected (snd (execute_internal cmd_list False (ready_client [] [Drained])))
   \<and> auto_reconnect (ready_client [] [Drained])
   \<and> fst (ensure_connected True (ready_client [] [Drained])) = Inr ()
   \<and> fst (command_attempt cmd_list (ready_client [] [Drained])) = Inl RCONTimeoutError
   \<and> fst (reconnect (mark_disconnected (snd (command_attempt cmd_list (ready_client [] [Drained])))))
       = Inr False
   \<and> fst (execute cmd_list (ready_client [] [Drained])) = Inl RCONTimeoutError
   \<and> \<not> is_connected (snd (execute cmd_list (ready_client [] [Drained])))"
proof -
  let ?rc = "ready_client [] [Drained]"
  define c3 where "c3 = snd (command_attempt cmd_list ?rc)"
  define c4 where "c4 = snd (reconnect (mark_disconnected c3))"
  have a1: "fst (connect silent_server) = Inl RCONTimeoutError" by code_simp
  have b1: "\<not> auto_reconnect slow_server_no_reconnect" by code_simp
  have b2: "fst (execute cmd_list slow_server_no_reconnect) = Inl RCONTimeoutError" by code_simp
  have c1: "fst (execute_internal cmd_list False ?rc) = Inl RCONTimeoutError" by code_simp
  have d1: "auto_reconnect ?rc" by code_simp
  have d2: "fst (ensure_connected True ?rc) = Inr ()" by code_simp
  have d2': "ensure_connected True ?rc = (Inr (), ?rc)" by code_simp
  have d3: "fst (command_attempt cmd_list ?rc) = Inl RCONTimeoutError" by code_simp
  have d4: "fst (reconnect (mark_disconnected (snd (command_attempt cmd_list ?rc)))) = Inr False"
    by code_simp
  have e3: "command_attempt cmd_list ?rc = (Inl RCONTimeoutError, c3)"
    using d3 by (simp add: c3_def prod_eq_iff)
  have e4: "reconnect (mark_disconnected c3) = (Inr False, c4)"
    using d4 by (simp add: c3_def c4_def prod_eq_iff)
  from timeout_post_state [of silent_server cmd_list] a1
  have a2: "\<not> is_connected (snd (connect silent_server))" by blast
  from timeout_post_state [of slow_server_no_reconnect cmd_list] b1 b2
  have b3: "is_connected (snd (execute cmd_list slow_server_no_reconnect))" by blast
  from timeout_post_state [of ?rc cmd_list] c1
  have c2: "is_connected (snd (execute_internal cmd_list False ?rc))" by blast
  from timeout_post_state [of ?rc cmd_list ?rc c3 c4] d1 d2' e3 e4
  have "execute cmd_list ?rc = (Inl RCONTimeoutError, c4)" "\<not> is_connected c4" by blast+
  then have d5: "fst (execute cmd_list ?rc) = Inl RCONTimeoutError"
    "\<not> is_connected (snd (execute cmd_list ?rc))" by simp_all
  from a1 a2 b1 b2 b3 c1 c2 d1 d2 d3 d4 d5 show ?thesis by blast
qed

section \<open>Errors that \<^verbatim>\<open>execute\<close> passes on and errors that it retries\<close>

text \<open>
  C7, as the claim states it, fails. On a connected client with automatic reconnection
  the first attempt ends in \<^verbatim>\<open>RCONTimeoutError\<close>; \<^verbatim>\<open>execute\<close> does not raise it: the handler of
  \<^verbatim>\<open>RCONTimeoutError\<close> closes the connection, reconnects and sends the command a second
  time, and the call returns the answer to the second command.
\<close>

theorem timeout_retried_counterexample:
  "auto_reconnect late_then_answering
   \<and> is_connected late_then_answering
   \<and> fst (command_attempt cmd_list late_then_answering) = Inl RCONTimeoutError
   \<and> fst (execute cmd_list late_then_answering) = Inr [0x68, 0x69]
   \<and> trace (snd (execute cmd_list late_then_answering))
     = [Sent \<lparr>request_id = 2, packet_type = 2, payload = cmd_list\<rparr>,
        Closed, Slept, Opened,
        Sent \<lparr>request_id = 3, packet_type = 3, payload = [0x70]\<rparr>,
        Received \<lparr>request_id = 3, packet_type = 2, payload = []\<rparr>,
        Sent \<lparr>request_id = 4, packet_type = 2, payload = cmd_list\<rparr>,
        Received \<lparr>request_id = 4, packet_type = 0, payload = [0x68, 0x69]\<rparr>]"
  by code_simp


text \<open>
  C7, amended. When the \<^verbatim>\<open>try\<close> body raises an error that is not a connection error, and
  that is a timeout error only if automatic reconnection is disabled or the run is the
  retried one, \<^verbatim>\<open>_execute_internal\<close> raises that error from the state the body left it in:
  no connection has been opened since the body started and the command has been written
  at most once. A timeout error in the first attempt with automatic reconnection enabled
  starts the reconnection; when it succeeds the command is run again without further
  retry, and the call has written the command twice.
\<close>

theorem error_propagation:
  "(ensure_connected retry c = (Inr (), c1) \<and> command_attempt command c1 = (Inl e, c3)
        \<and> e \<noteq> RCONConnectionError
        \<and> (e = RCONTimeoutError \<longrightarrow> \<not> (auto_reconnect c \<and> retry))
      \<longrightarrow> execute_internal command retry c = (Inl e, c3)
          \<and> opens c3 = opens c1 \<and> net c3 = net c1
          \<and> command_sends command c3 \<le> command_sends command c1 + 1)
   \<and> (auto_reconnect c \<and> writer_while_connected c
        \<and> ensure_connected True c = (Inr (), c1)
        \<and> command_attempt command c1 = (Inl RCONTimeoutError, c3)
        \<and> reconnect (mark_disconnected c3) = (Inr True, c4)
      \<longrightarrow> execute command c = execute_internal command False c4
          \<and> command_sends command (snd (execute command c)) = command_sends command c + 2)"
proof (intro conjI impI)
  assume h: "ensure_connected retry c = (Inr (), c1) \<and> command_attempt command c1 = (Inl e, c3)
        \<and> e \<noteq> RCONConnectionError
        \<and> (e = RCONTimeoutError \<longrightarrow> \<not> (auto_reconnect c \<and> retry))"
  then have e: "ensure_connected retry c = (Inr (), c1)"
    and a: "command_attempt command c1 = (Inl e, c3)" by blast+
  note pa = command_attempt_props[OF a]
  have ar3: "auto_reconnect c3 = auto_reconnect c"
    using same_config_trans[OF ensure_connected_props(1)[OF e] pa(1)]
    by (simp add: same_config_def)
  show "execute_internal command retry c = (Inl e, c3)"
    using h e a ar3 by (auto simp: execute_internal.simps[of command retry c])
  show "opens c3 = opens c1" by (rule pa(3))
  show "net c3 = net c1" by (rule pa(2))
  show "command_sends command c3 \<le> command_sends command c1 + 1" by (rule pa(4))
next
  assume h: "auto_reconnect c \<and> writer_while_connected c
        \<and> ensure_connected True c = (Inr (), c1)
        \<and> command_attempt command c1 = (Inl RCONTimeoutError, c3)
        \<and> reconnect (mark_disconnected c3) = (Inr True, c4)"
  then have e: "ensure_connected True c = (Inr (), c1)"
    and a: "command_attempt command c1 = (Inl RCONTimeoutError, c3)"
    and r: "reconnect (mark_disconnected c3) = (Inr True, c4)"
    and wc: "writer_while_connected c" and ar: "auto_reconnect c" by blast+
  note pe = ensure_connected_props[OF e]
  note pa = command_attempt_props[OF a]
  note pr = reconnect_props[OF r]
  have w1: "is_connected c1" "writer c1 \<noteq> None" using pe(4)[OF wc] by simp_all
  obtain d where d: "encode \<lparr>request_id = 0, packet_type = SERVERDATA_EXECCOMMAND,
                               payload = command\<rparr> = Inr d"
    using pa(9)[OF w1(2)] by auto
  have ar3: "auto_reconnect c3"
    using ar same_config_trans[OF pe(1) pa(1)] by (simp add: same_config_def)
  have w4: "is_connected c4" "writer c4 \<noteq> None"
    using pr(4) mark_disconnected_props(4)[of c3] by simp_all
  have c3: "command_sends command c3 = command_sends command c + 1"
    using pa(8)[OF w1(2)] d pe(2)[of command] by simp
  have c4: "command_sends command c4 = command_sends command c3"
    using pr(2)[of command] mark_disconnected_props(2)[of command c3] by simp
  show ex: "execute command c = execute_internal command False c4"
    using e a r ar3 by (simp add: execute_def execute_internal.simps[of command True c])
  show "command_sends command (snd (execute command c)) = command_sends command c + 2"
    unfolding ex using execute_internal_no_retry_sends_exactly[OF w4 d] c3 c4 by simp
qed


theorem error_propagation_witness:
  "fst (ensure_connected True oversized_answer) = Inr ()
   \<and> fst (command_attempt cmd_list oversized_answer) = Inl RCONError
   \<and> fst (execute cmd_list oversized_answer) = Inl RCONError
   \<and> opens (snd (execute cmd_list oversized_answer)) = 0
   \<and> command_sends cmd_list (snd (execute cmd_list oversized_answer)) = 1
   \<and> \<not> auto_reconnect slow_server_no_reconnect
   \<and> fst (command_attempt cmd_list slow_server_no_reconnect) = Inl RCONTimeoutError
   \<and> fst (execute cmd_list slow_server_no_reconnect) = Inl RCONTimeoutError
   \<and> opens (snd (execute cmd_list slow_server_no_reconnect)) = 0
   \<and> auto_reconnect late_then_answering \<and> writer_while_connected late_then_answering
   \<and> fst (command_attempt cmd_list late_then_answering) = Inl RCONTimeoutError
   \<and> fst (reconnect (mark_disconnected (snd (command_attempt cmd_list late_then_answering))))
       = Inr True
   \<and> command_sends cmd_list (snd (execute cmd_list late_then_answering)) = 2"
proof -
  define o3 where "o3 = snd (command_attempt cmd_list oversized_answer)"
  define s3 where "s3 = snd (command_attempt cmd_list slow_server_no_reconnect)"
  define l3 where "l3 = snd (command_attempt cmd_list late_then_answering)"
  define l4 where "l4 = snd (reconnect (mark_disconnected l3))"
  have a1: "ensure_connected True oversized_answer = (Inr (), oversized_answer)" by code_simp
  have a2: "fst (command_attempt cmd_list oversized_answer) = Inl RCONError" by code_simp
  have a3: "opens oversized_answer = 0" "command_sends cmd_list oversized_answer = 0"
    "command_sends cmd_list (snd (execute cmd_list oversized_answer)) = 1" by code_simp+
  have a2': "command_attempt cmd_list oversized_answer = (Inl RCONError, o3)"
    using a2 by (simp add: o3_def prod_eq_iff)
  from error_propagation [of True oversized_answer oversized_answer cmd_list RCONError o3] a1 a2'
  have a4: "execute_internal cmd_list True oversized_answer = (Inl RCONError, o3)"
    "opens o3 = opens oversized_answer"
    by simp_all
  have a5: "fst (execute cmd_list oversized_answer) = Inl RCONError"
    "opens (snd (execute cmd_list oversized_answer)) = 0"
    using a4 a3 by (simp_all add: execute_def)
  have b1: "ensure_connected True slow_server_no_reconnect = (Inr (), slow_server_no_reconnect)"
    by code_simp
  have b0: "\<not> auto_reconnect slow_server_no_reconnect" by code_simp
  have b2: "fst (command_attempt cmd_list slow_server_no_reconnect) = Inl RCONTimeoutError"
    by code_simp
  have b3: "opens slow_server_no_reconnect = 0" by code_simp
  have b2': "command_attempt cmd_list slow_server_no_reconnect = (Inl RCONTimeoutError, s3)"
    using b2 by (simp add: s3_def prod_eq_iff)
  from error_propagation [of True slow_server_no_reconnect slow_server_no_reconnect cmd_list
      RCONTimeoutError s3] b0 b1 b2'
  have b4: "execute_internal cmd_list True slow_server_no_reconnect = (Inl RCONTimeoutError, s3)"
    "opens s3 = opens slow_server_no_reconnect"
    by simp_all
  have b5: "fst (execute cmd_list slow_server_no_reconnect) = Inl RCONTimeoutError"
    "opens (snd (execute cmd_list slow_server_no_reconnect)) = 0"
    using b4 b3 by (simp_all add: execute_def)
  have c0: "auto_reconnect late_then_answering" "writer_while_connected late_then_answering"
    by code_simp+
  have c1: "ensure_connected True late_then_answering = (Inr (), late_then_answering)"
    by code_simp
  have c2: "fst (command_attempt cmd_list late_then_answering) = Inl RCONTimeoutError"
    by code_simp
  have c3: "fst (reconnect (mark_disconnected (snd (command_attempt cmd_list late_then_answering))))
       = Inr True" by code_simp
  have c4: "command_sends cmd_list late_then_answering = 0" by code_simp
  have c2': "command_attempt cmd_list late_then_answering = (Inl RCONTimeoutError, l3)"
    using c2 by (simp add: l3_def prod_eq_iff)
  have c3': "reconnect (mark_disconnected l3) = (Inr True, l4)"
    using c3 by (simp add: l3_def l4_def prod_eq_iff)
  from error_propagation [of _ late_then_answering late_then_answering cmd_list _ l3 l4]
    c0 c1 c2' c3'
  have "command_sends cmd_list (snd (execute cmd_list late_then_answering))
        = command_sends cmd_list late_then_answering + 2" by blast
  with c4 have c5: "command_sends cmd_list (snd (execute cmd_list late_then_answering)) = 2"
    by simp
  from a1 a2 a3 a5 b0 b2 b5 c0 c2 c3 c5 show ?thesis by simp
qed

section \<open>The leading packet of the handshake\<close>

text \<open>
  C8, as the claim states it, fails. The server's first packet has the type of a response
  value, the request id of the \<^verbatim>\<open>Auth\<close> packet and a payload that is not empty. The claim
  takes it for the response to examine, and the handshake would succeed; \<^verbatim>\<open>_authenticate\<close>
  tests the type alone, reads a second packet, finds request id -1 there and raises
  \<^verbatim>\<open>RCONAuthenticationError\<close>.
\<close>

theorem nonempty_leading_packet_counterexample:
  "fst (connect nonempty_leading_packet) = Inl RCONAuthenticationError
   \<and> trace (snd (connect nonempty_leading_packet))
     = [Opened,
        Sent \<lparr>request_id = 1, packet_type = 3, payload = [0x70, 0x77]\<rparr>,
        Received \<lparr>request_id = 1, packet_type = 0, payload = [0x78]\<rparr>,
        Received \<lparr>request_id = - 1, packet_type = 2, payload = []\<rparr>]
   \<and> fst (read_auth_response
          (ready_client (server_frame 1 0 [0x78] @ server_frame (- 1) 2 []) []))
     = Inr \<lparr>request_id = - 1, packet_type = 2, payload = []\<rparr>"
  by code_simp


text \<open>
  C8, amended. Take a \<^verbatim>\<open>connect\<close> on a client that is not connected, in which the connection
  opens and the \<^verbatim>\<open>Auth\<close> packet is sent. The handshake tests the type of the first packet it
  receives and nothing else of it. A first packet of a type other than
  \<^verbatim>\<open>SERVERDATA_RESPONSE_VALUE\<close> is the response: its request id decides between success and
  \<^verbatim>\<open>RCONAuthenticationError\<close>, and one packet has been read. A first packet of type
  \<^verbatim>\<open>SERVERDATA_RESPONSE_VALUE\<close> is discarded, whatever its payload and its request id, and
  the handshake reads exactly one more packet: that second packet is the response, whatever
  its type, and an error of the second read is the error that \<^verbatim>\<open>connect\<close> raises. An error of
  the first read is raised as it is.
\<close>

theorem leading_packet_of_handshake:
  assumes "\<not> connected c"
    and "open_connection (net c) = (Inr (r, w), n)"
    and "next_request_id ((log_event Opened c)\<lparr>net := n, reader := Some r, writer := Some w,
            connected := True\<rparr>) = (auth_id, c1)"
    and "send_packet \<lparr>request_id = auth_id, packet_type = SERVERDATA_AUTH,
            payload = password c\<rparr> c1 = (Inr (), c2)"
  shows "(receive_packet c2 = (Inr first, c3)
          \<and> packet_type first \<noteq> SERVERDATA_RESPONSE_VALUE
            \<longrightarrow> connect c
                = (if request_id first = - 1 \<or> request_id first \<noteq> auth_id
                   then (Inl RCONAuthenticationError, mark_disconnected c3)
                   else (Inr (), c3\<lparr>authenticated := True\<rparr>))
              \<and> trace (snd (connect c)) = trace c2 @ [Received first])
    \<and> (receive_packet c2 = (Inr first, c3)
          \<and> packet_type first = SERVERDATA_RESPONSE_VALUE
          \<and> receive_packet c3 = (Inr second, c4)
            \<longrightarrow> connect c
                = (if request_id second = - 1 \<or> request_id second \<noteq> auth_id
                   then (Inl RCONAuthenticationError, mark_disconnected c4)
                   else (Inr (), c4\<lparr>authenticated := True\<rparr>))
              \<and> trace (snd (connect c)) = trace c2 @ [Received first, Received second])
    \<and> (receive_packet c2 = (Inr first, c3)
          \<and> packet_type first = SERVERDATA_RESPONSE_VALUE
          \<and> receive_packet c3 = (Inl e, c4)
            \<longrightarrow> connect c = (Inl e, if is_RCONError e then mark_disconnected c4 else c4)
              \<and> trace (snd (connect c)) = trace c2 @ [Received first])
    \<and> (receive_packet c2 = (Inl e, c3)
            \<longrightarrow> connect c = (Inl e, if is_RCONError e then mark_disconnected c3 else c3)
              \<and> trace (snd (connect c)) = trace c2)"
proof (intro conjI impI)
  assume h: "receive_packet c2 = (Inr first, c3)
          \<and> packet_type first \<noteq> SERVERDATA_RESPONSE_VALUE"
  then have "read_auth_response c2 = (Inr first, c3)"
    by (simp add: read_auth_response_def)
  from connect_handshake[OF assms(1-4) this]
  show eq: "connect c
                = (if request_id first = - 1 \<or> request_id first \<noteq> auth_id
                   then (Inl RCONAuthenticationError, mark_disconnected c3)
                   else (Inr (), c3\<lparr>authenticated := True\<rparr>))"
    by simp
  from h have "trace c3 = trace c2 @ [Received first]"
    using receive_packet_props(7)[of c2 "Inr first" c3 first] by simp
  then show "trace (snd (connect c)) = trace c2 @ [Received first]"
    unfolding eq by (simp add: mark_disconnected_props(6))
next
  assume h: "receive_packet c2 = (Inr first, c3)
          \<and> packet_type first = SERVERDATA_RESPONSE_VALUE
          \<and> receive_packet c3 = (Inr second, c4)"
  then have "read_auth_response c2 = (Inr second, c4)"
    by (simp add: read_auth_response_def)
  from connect_handshake[OF assms(1-4) this]
  show eq: "connect c
                = (if request_id second = - 1 \<or> request_id second \<noteq> auth_id
                   then (Inl RCONAuthenticationError, mark_disconnected c4)
                   else (Inr (), c4\<lparr>authenticated := True\<rparr>))"
    by simp
  from h have "trace c3 = trace c2 @ [Received first]"
    using receive_packet_props(7)[of c2 "Inr first" c3 first] by simp
  moreover from h have "trace c4 = trace c3 @ [Received second]"
    using receive_packet_props(7)[of c3 "Inr second" c4 second] by simp
  ultimately show "trace (snd (connect c)) = trace c2 @ [Received first, Received second]"
    unfolding eq by (simp add: mark_disconnected_props(6))
next
  assume h: "receive_packet c2 = (Inr first, c3)
          \<and> packet_type first = SERVERDATA_RESPONSE_VALUE
          \<and> receive_packet c3 = (Inl e, c4)"
  then have "read_auth_response c2 = (Inl e, c4)"
    by (simp add: read_auth_response_def)
  from connect_handshake[OF assms(1-4) this]
  show eq: "connect c = (Inl e, if is_RCONError e then mark_disconnected c4 else c4)"
    by simp
  from h have "trace c3 = trace c2 @ [Received first]"
    using receive_packet_props(7)[of c2 "Inr first" c3 first] by simp
  moreover from h have "trace c4 = trace c3"
    using receive_packet_props(6)[of c3 "Inl e" c4 e] by simp
  ultimately show "trace (snd (connect c)) = trace c2 @ [Received first]"
    unfolding eq by (simp add: mark_disconnected_props(6))
next
  assume h: "receive_packet c2 = (Inl e, c3)"
  then have "read_auth_response c2 = (Inl e, c3)"
    by (simp add: read_auth_response_def)
  from connect_handshake[OF assms(1-4) this]
  show eq: "connect c = (Inl e, if is_RCONError e then mark_disconnected c3 else c3)"
    by simp
  from h have "trace c3 = trace c2"
    using receive_packet_props(6)[of c2 "Inl e" c3 e] by simp
  then show "trace (snd (connect c)) = trace c2"
    unfolding eq by (simp add: mark_disconnected_props(6))
qed

theorem leading_packet_of_handshake_witness:
  "\<not> connected answer_with_text
   \<and> fst (connect answer_with_text) = Inr ()
   \<and> is_connected (snd (connect answer_with_text))
   \<and> trace (snd (connect answer_with_text))
     = [Opened,
        Sent \<lparr>request_id = 1, packet_type = 3, payload = [0x70, 0x77]\<rparr>,
        Received \<lparr>request_id = 1, packet_type = 2, payload = [0x78]\<rparr>]
   \<and> \<not> connected two_leading_packets
   \<and> fst (connect two_leading_packets) = Inr ()
   \<and> is_connected (snd (connect two_leading_packets))
   \<and> trace (snd (connect two_leading_packets))
     = [Opened,
        Sent \<lparr>request_id = 1, packet_type = 3, payload = [0x70, 0x77]\<rparr>,
        Received \<lparr>request_id = 1, packet_type = 0, payload = []\<rparr>,
        Received \<lparr>request_id = 1, packet_type = 0, payload = []\<rparr>]
   \<and> \<not> connected silent_after_leading_packet
   \<and> fst (connect silent_after_leading_packet) = Inl RCONTimeoutError
   \<and> trace (snd (connect silent_after_leading_packet))
     = [Opened,
        Sent \<lparr>request_id = 1, packet_type = 3, payload = [0x70, 0x77]\<rparr>,
        Received \<lparr>request_id = 1, packet_type = 0, payload = []\<rparr>]
   \<and> \<not> connected silent_server
   \<and> fst (connect silent_server) = Inl RCONTimeoutError
   \<and> trace (snd (connect silent_server))
     = [Opened,
        Sent \<lparr>request_id = 1, packet_type = 3, payload = [0x70, 0x77]\<rparr>]"
proof -
  let ?pkt = "\<lparr>request_id = 1, packet_type = SERVERDATA_AUTH, payload = [0x70, 0x77]\<rparr>"
  let ?sent = "[Opened, Sent \<lparr>request_id = 1, packet_type = 3, payload = [0x70, 0x77]\<rparr>]"
  let ?empty = "\<lparr>request_id = 1, packet_type = 0, payload = []\<rparr>"
  \<comment> \<open>a first packet of type 2 with text: it is the response\<close>
  let ?ra = "\<lparr>buffer = server_frame 1 2 [0x78], at_end = Silent\<rparr>"
  let ?a0 = "(log_event Opened answer_with_text)\<lparr>net := [], reader := Some ?ra,
               writer := Some [Drained], connected := True\<rparr>"
  let ?fa = "\<lparr>request_id = 1, packet_type = 2, payload = [0x78]\<rparr>"
  define a1 where "a1 = snd (next_request_id ?a0)"
  define a2 where "a2 = snd (send_packet ?pkt a1)"
  define a3 where "a3 = snd (receive_packet a2)"
  have a_h1: "\<not> connected answer_with_text" by code_simp
  have a_pw: "password answer_with_text = [0x70, 0x77]" by code_simp
  have a_h2: "open_connection (net answer_with_text) = (Inr (?ra, [Drained]), [])"
    by (simp add: answer_with_text_def init_client_def)
  have a_h3: "next_request_id ?a0 = (1, a1)"
    unfolding a1_def by (simp add: next_request_id_def answer_with_text_def init_client_def
        log_event_def)
  have "fst (send_packet ?pkt (snd (next_request_id ?a0))) = Inr ()" by code_simp
  then have a_h4: "send_packet \<lparr>request_id = 1, packet_type = SERVERDATA_AUTH,
            payload = password answer_with_text\<rparr> a1 = (Inr (), a2)"
    unfolding a_pw by (simp add: a1_def a2_def prod_eq_iff)
  have "trace (snd (send_packet ?pkt (snd (next_request_id ?a0)))) = ?sent" by code_simp
  then have a_tr: "trace a2 = ?sent" by (simp add: a1_def a2_def)
  have "fst (receive_packet (snd (send_packet ?pkt (snd (next_request_id ?a0))))) = Inr ?fa"
    by code_simp
  then have a_h5: "receive_packet a2 = (Inr ?fa, a3)"
    by (simp add: a1_def a2_def a3_def prod_eq_iff)
  have a_ty: "packet_type ?fa \<noteq> SERVERDATA_RESPONSE_VALUE"
    by (simp add: SERVERDATA_RESPONSE_VALUE_def)
  note ta = leading_packet_of_handshake [OF a_h1 a_h2 a_h3 a_h4, of ?fa a3]
  from ta a_h5 a_ty have a_eq: "connect answer_with_text
      = (if request_id ?fa = - 1 \<or> request_id ?fa \<noteq> 1
         then (Inl RCONAuthenticationError, mark_disconnected a3)
         else (Inr (), a3\<lparr>authenticated := True\<rparr>))"
    and a_t: "trace (snd (connect answer_with_text)) = trace a2 @ [Received ?fa]"
    by blast+
  from a_eq have a_r: "fst (connect answer_with_text) = Inr ()" by simp
  from a_t a_tr have a_trace: "trace (snd (connect answer_with_text)) = ?sent @ [Received ?fa]"
    by simp
  have a_c: "is_connected (snd (connect answer_with_text))" by code_simp
  \<comment> \<open>two leading packets of type 0: the second is the response\<close>
  let ?rb = "\<lparr>buffer = server_frame 1 0 [] @ server_frame 1 0 [] @ server_frame (- 1) 2 [],
               at_end = Silent\<rparr>"
  let ?b0 = "(log_event Opened two_leading_packets)\<lparr>net := [], reader := Some ?rb,
               writer := Some [Drained], connected := True\<rparr>"
  define b1 where "b1 = snd (next_request_id ?b0)"
  define b2 where "b2 = snd (send_packet ?pkt b1)"
  define b3 where "b3 = snd (receive_packet b2)"
  define b4 where "b4 = snd (receive_packet b3)"
  have b_h1: "\<not> connected two_leading_packets" by code_simp
  have b_pw: "password two_leading_packets = [0x70, 0x77]" by code_simp
  have b_h2: "open_connection (net two_leading_packets) = (Inr (?rb, [Drained]), [])"
    by (simp add: two_leading_packets_def init_client_def)
  have b_h3: "next_request_id ?b0 = (1, b1)"
    unfolding b1_def by (simp add: next_request_id_def two_leading_packets_def init_client_def
        log_event_def)
  have "fst (send_packet ?pkt (snd (next_request_id ?b0))) = Inr ()" by code_simp
  then have b_h4: "send_packet \<lparr>request_id = 1, packet_type = SERVERDATA_AUTH,
            payload = password two_leading_packets\<rparr> b1 = (Inr (), b2)"
    unfolding b_pw by (simp add: b1_def b2_def prod_eq_iff)
  have "trace (snd (send_packet ?pkt (snd (next_request_id ?b0)))) = ?sent" by code_simp
  then have b_tr: "trace b2 = ?sent" by (simp add: b1_def b2_def)
  have "fst (receive_packet (snd (send_packet ?pkt (snd (next_request_id ?b0))))) = Inr ?empty"
    by code_simp
  then have b_h5: "receive_packet b2 = (Inr ?empty, b3)"
    by (simp add: b1_def b2_def b3_def prod_eq_iff)
  have "fst (receive_packet (snd (receive_packet (snd (send_packet ?pkt
          (snd (next_request_id ?b0))))))) = Inr ?empty"
    by code_simp
  then have b_h6: "receive_packet b3 = (Inr ?empty, b4)"
    by (simp add: b1_def b2_def b3_def b4_def prod_eq_iff)
  have b_ty: "packet_type ?empty = SERVERDATA_RESPONSE_VALUE"
    by (simp add: SERVERDATA_RESPONSE_VALUE_def)
  note tb = leading_packet_of_handshake [OF b_h1 b_h2 b_h3 b_h4, of ?empty b3 ?empty b4]
  from tb b_h5 b_h6 b_ty have b_eq: "connect two_leading_packets
      = (if request_id ?empty = - 1 \<or> request_id ?empty \<noteq> 1
         then (Inl RCONAuthenticationError, mark_disconnected b4)
         else (Inr (), b4\<lparr>authenticated := True\<rparr>))"
    and b_t: "trace (snd (connect two_leading_packets))
         = trace b2 @ [Received ?empty, Received ?empty]"
    by blast+
  from b_eq have b_r: "fst (connect two_leading_packets) = Inr ()" by simp
  from b_t b_tr have b_trace: "trace (snd (connect two_leading_packets))
         = ?sent @ [Received ?empty, Received ?empty]"
    by simp
  have b_c: "is_connected (snd (connect two_leading_packets))" by code_simp
  \<comment> \<open>a leading packet of type 0, then silence: the error of the second read\<close>
  let ?rd = "\<lparr>buffer = server_frame 1 0 [], at_end = Silent\<rparr>"
  let ?d0 = "(log_event Opened silent_after_leading_packet)\<lparr>net := [], reader := Some ?rd,
               writer := Some [Drained], connected := True\<rparr>"
  define d1 where "d1 = snd (next_request_id ?d0)"
  define d2 where "d2 = snd (send_packet ?pkt d1)"
  define d3 where "d3 = snd (receive_packet d2)"
  define d4 where "d4 = snd (receive_packet d3)"
  have d_h1: "\<not> connected silent_after_leading_packet" by code_simp
  have d_pw: "password silent_after_leading_packet = [0x70, 0x77]" by code_simp
  have d_h2: "open_connection (net silent_after_leading_packet) = (Inr (?rd, [Drained]), [])"
    by (simp add: silent_after_leading_packet_def init_client_def)
  have d_h3: "next_request_id ?d0 = (1, d1)"
    unfolding d1_def by (simp add: next_request_id_def silent_after_leading_packet_def
        init_client_def log_event_def)
  have "fst (send_packet ?pkt (snd (next_request_id ?d0))) = Inr ()" by code_simp
  then have d_h4: "send_packet \<lparr>request_id = 1, packet_type = SERVERDATA_AUTH,
            payload = password silent_after_leading_packet\<rparr> d1 = (Inr (), d2)"
    unfolding d_pw by (simp add: d1_def d2_def prod_eq_iff)
  have "trace (snd (send_packet ?pkt (snd (next_request_id ?d0)))) = ?sent" by code_simp
  then have d_tr: "trace d2 = ?sent" by (simp add: d1_def d2_def)
  have "fst (receive_packet (snd (send_packet ?pkt (snd (next_request_id ?d0))))) = Inr ?empty"
    by code_simp
  then have d_h5: "receive_packet d2 = (Inr ?empty, d3)"
    by (simp add: d1_def d2_def d3_def prod_eq_iff)
  have "fst (receive_packet (snd (receive_packet (snd (send_packet ?pkt
          (snd (next_request_id ?d0))))))) = Inl RCONTimeoutError"
    by code_simp
  then have d_h6: "receive_packet d3 = (Inl RCONTimeoutError, d4)"
    by (simp add: d1_def d2_def d3_def d4_def prod_eq_iff)
  note td = leading_packet_of_handshake [OF d_h1 d_h2 d_h3 d_h4, of ?empty d3 ?empty d4
      RCONTimeoutError]
  from td d_h5 d_h6 b_ty have d_eq: "connect silent_after_leading_packet
      = (Inl RCONTimeoutError,
         if is_RCONError RCONTimeoutError then mark_disconnected d4 else d4)"
    and d_t: "trace (snd (connect silent_after_leading_packet)) = trace d2 @ [Received ?empty]"
    by blast+
  from d_eq have d_r: "fst (connect silent_after_leading_packet) = Inl RCONTimeoutError"
    by simp
  from d_t d_tr have d_trace: "trace (snd (connect silent_after_leading_packet))
         = ?sent @ [Received ?empty]"
    by simp
  \<comment> \<open>silence from the start: the error of the first read\<close>
  let ?re = "\<lparr>buffer = [], at_end = Silent\<rparr>"
  let ?e0 = "(log_event Opened silent_server)\<lparr>net := [], reader := Some ?re,
               writer := Some [Drained], connected := True\<rparr>"
  define e1 where "e1 = snd (next_request_id ?e0)"
  define e2 where "e2 = snd (send_packet ?pkt e1)"
  define e3 where "e3 = snd (receive_packet e2)"
  have e_h1: "\<not> connected silent_server" by code_simp
  have e_pw: "password silent_server = [0x70, 0x77]" by code_simp
  have e_h2: "open_connection (net silent_server) = (Inr (?re, [Drained]), [])"
    by (simp add: silent_server_def init_client_def)
  have e_h3: "next_request_id ?e0 = (1, e1)"
    unfolding e1_def by (simp add: next_request_id_def silent_server_def init_client_def
        log_event_def)
  have "fst (send_packet ?pkt (snd (next_request_id ?e0))) = Inr ()" by code_simp
  then have e_h4: "send_packet \<lparr>request_id = 1, packet_type = SERVERDATA_AUTH,
            payload = password silent_server\<rparr> e1 = (Inr (), e2)"
    unfolding e_pw by (simp add: e1_def e2_def prod_eq_iff)
  have "trace (snd (send_packet ?pkt (snd (next_request_id ?e0)))) = ?sent" by code_simp
  then have e_tr: "trace e2 = ?sent" by (simp add: e1_def e2_def)
  have "fst (receive_packet (snd (send_packet ?pkt (snd (next_request_id ?e0)))))
      = Inl RCONTimeoutError"
    by code_simp
  then have e_h5: "receive_packet e2 = (Inl RCONTimeoutError, e3)"
    by (simp add: e1_def e2_def e3_def prod_eq_iff)
  note te = leading_packet_of_handshake [OF e_h1 e_h2 e_h3 e_h4, of ?empty e3 ?empty e3
      RCONTimeoutError]
  from te e_h5 have e_eq: "connect silent_server
      = (Inl RCONTimeoutError,
         if is_RCONError RCONTimeoutError then mark_disconnected e3 else e3)"
    and e_t: "trace (snd (connect silent_server)) = trace e2"
    by blast+
  from e_eq have e_r: "fst (connect silent_server) = Inl RCONTimeoutError" by simp
  from e_t e_tr have e_trace: "trace (snd (connect silent_server)) = ?sent" by simp
  from a_h1 a_r a_c a_trace b_h1 b_r b_c b_trace d_h1 d_r d_trace e_h1 e_r e_trace
  show ?thesis by simp
qed

section \<open>The response to a command\<close>

text \<open>
  C10. When \<^verbatim>\<open>execute\<close> returns a string, the trace of the call ends with the command packet
  being written under some request id, followed by the packets received after it: all but
  the last have another request id, the last has the request id of the command, and the
  string returned is the payload of that last packet. Nothing is read after it.
\<close>

theorem execute_returns_first_matching_payload:
  assumes "fst (execute command c) = Inr result"
  shows "\<exists>before rid skipped p.
           trace (snd (execute command c))
             = before @ [Sent \<lparr>request_id = rid, packet_type = SERVERDATA_EXECCOMMAND,
                                  payload = command\<rparr>]
                 @ map Received skipped @ [Received p]
           \<and> (\<forall>q\<in>set skipped. request_id q \<noteq> rid) \<and> request_id p = rid
           \<and> result = payload p"
proof -
  have attempt: "\<exists>before rid skipped p.
           trace c' = before @ [Sent \<lparr>request_id = rid, packet_type = SERVERDATA_EXECCOMMAND,
                                  payload = command\<rparr>]
                 @ map Received skipped @ [Received p]
           \<and> (\<forall>q\<in>set skipped. request_id q \<noteq> rid) \<and> request_id p = rid
           \<and> result = payload p"
    if "command_attempt command c0 = (Inr result, c')" for c0 c'
    using command_attempt_props(7)[OF that refl] by blast
  have no_retry: "\<exists>before rid skipped p.
           trace (snd (execute_internal command False c0))
             = before @ [Sent \<lparr>request_id = rid, packet_type = SERVERDATA_EXECCOMMAND,
                                  payload = command\<rparr>]
                 @ map Received skipped @ [Received p]
           \<and> (\<forall>q\<in>set skipped. request_id q \<noteq> rid) \<and> request_id p = rid
           \<and> result = payload p"
    if "fst (execute_internal command False c0) = Inr result" for c0
  proof -
    obtain r3 c3 where a: "command_attempt command c0 = (r3, c3)"
      by (cases "command_attempt command c0")
    from that have "r3 = Inr result \<and> snd (execute_internal command False c0) = c3"
      by (auto simp: execute_internal_no_retry a split: sum.splits if_splits)
    then show ?thesis using attempt[of c0 c3] a by simp
  qed
  obtain r1 c1 where e: "ensure_connected True c = (r1, c1)" by (cases "ensure_connected True c")
  obtain r3 c3 where a: "command_attempt command c1 = (r3, c3)"
    by (cases "command_attempt command c1")
  obtain r4 c4 where r: "reconnect (mark_disconnected c3) = (r4, c4)"
    by (cases "reconnect (mark_disconnected c3)")
  from assms e a r
  have "(r3 = Inr result \<and> snd (execute command c) = c3)
      \<or> (execute command c = execute_internal command False c4)"
    by (auto simp: execute_def execute_internal.simps[of command True c]
        split: sum.splits if_splits)
  then show ?thesis
  proof
    assume "r3 = Inr result \<and> snd (execute command c) = c3"
    then show ?thesis using attempt[of c1 c3] a by simp
  next
    assume x: "execute command c = execute_internal command False c4"
    show ?thesis unfolding x using no_retry[of c4] assms x by simp
  qed
qed


theorem execute_returns_first_matching_payload_witness:
  "fst (execute cmd_list answering_after_stray) = Inr [0x68, 0x69]
   \<and> trace (snd (execute cmd_list answering_after_stray))
     = [Sent \<lparr>request_id = 2, packet_type = 2, payload = cmd_list\<rparr>,
        Received \<lparr>request_id = 7, packet_type = 0, payload = [0x6E, 0x6F]\<rparr>,
        Received \<lparr>request_id = 2, packet_type = 0, payload = [0x68, 0x69]\<rparr>]
   \<and> (\<exists>before rid skipped p.
         trace (snd (execute cmd_list answering_after_stray))
           = before @ [Sent \<lparr>request_id = rid, packet_type = SERVERDATA_EXECCOMMAND,
                                payload = cmd_list\<rparr>]
               @ map Received skipped @ [Received p]
         \<and> (\<forall>q\<in>set skipped. request_id q \<noteq> rid) \<and> request_id p = rid
         \<and> [0x68, 0x69] = payload p)"
proof -
  have r: "fst (execute cmd_list answering_after_stray) = Inr [0x68, 0x69]" by code_simp
  have t: "trace (snd (execute cmd_list answering_after_stray))
     = [Sent \<lparr>request_id = 2, packet_type = 2, payload = cmd_list\<rparr>,
        Received \<lparr>request_id = 7, packet_type = 0, payload = [0x6E, 0x6F]\<rparr>,
        Received \<lparr>request_id = 2, packet_type = 0, payload = [0x68, 0x69]\<rparr>]" by code_simp
  from execute_returns_first_matching_payload [OF r] r t show ?thesis by blast
qed

end
